theory Spec2Isabelle
  imports Complex_Main "HOL-Library.AList" "HOL-Library.Char_ord" "HOL-Library.List_Lexorder"
    "HOL-Library.Log_Nat" "HOL-Library.Word"
begin

section \<open>Event payloads and their fingerprint\<close>

text \<open>
  The \<open>details\<close> argument of \<open>trackEvent\<close> is an arbitrary JavaScript value. The values
  that \<open>JSON.stringify\<close> can print are modelled by \<open>json\<close>; an omitted or \<open>undefined\<close>
  argument is \<open>None\<close> of \<open>json option\<close>. An object is the list of its own enumerable
  properties, and its prototype is \<open>Object.prototype\<close>. A number of a payload is an
  integer from \<open>- 2^53\<close> to \<open>2^53 - 1\<close>: a word of 54 bits read as signed, so that every
  value of the type is a number a double holds exactly and \<open>Number.prototype.toString\<close>
  prints in plain decimal.
\<close>

datatype json =
    JNull
  | JBool bool
  | JNum "54 word"
  | JStr string
  | JArr "json list"
  | JObj "(string \<times> json) list"

definition digit :: "nat \<Rightarrow> char" where
  "digit d = char_of (48 + d)"

fun show_nat :: "nat \<Rightarrow> string" where
  "show_nat n = (if n < 10 then [digit n] else show_nat (n div 10) @ [digit (n mod 10)])"

declare show_nat.simps [simp del]

definition Number_toString :: "54 word \<Rightarrow> string" where
  "Number_toString w =
     (let i = sint w
      in if i < 0 then CHR ''-'' # show_nat (nat (- i)) else show_nat (nat i))"

definition hex_digit :: "nat \<Rightarrow> char" where
  "hex_digit d = (if d < 10 then char_of (48 + d) else char_of (87 + d))"

text \<open>
  \<open>QuoteJSONString\<close> of ECMAScript: the quotation mark and the reverse solidus are
  escaped, the five control characters with a short form use it, every other character
  below \<open>0x20\<close> becomes \<open>\u00XX\<close> in lower-case hexadecimal.
\<close>

definition escape_char :: "char \<Rightarrow> string" where
  "escape_char c =
     (if c = CHR 0x22 then [CHR 0x5C, CHR 0x22]
      else if c = CHR 0x5C then [CHR 0x5C, CHR 0x5C]
      else if c = CHR 0x08 then [CHR 0x5C, CHR ''b'']
      else if c = CHR 0x09 then [CHR 0x5C, CHR ''t'']
      else if c = CHR 0x0A then [CHR 0x5C, CHR ''n'']
      else if c = CHR 0x0C then [CHR 0x5C, CHR ''f'']
      else if c = CHR 0x0D then [CHR 0x5C, CHR ''r'']
      else if (of_char c :: nat) < 32 then
        [CHR 0x5C, CHR ''u'', CHR ''0'', CHR ''0'',
         hex_digit ((of_char c :: nat) div 16), hex_digit ((of_char c :: nat) mod 16)]
      else [c])"

definition quote :: "string \<Rightarrow> string" where
  "quote s = [CHR 0x22] @ concat (map escape_char s) @ [CHR 0x22]"

fun join :: "string list \<Rightarrow> string" where
  "join [] = []"
| "join [s] = s"
| "join (s # t # ss) = s @ '','' @ join (t # ss)"

text \<open>
  \<open>SerializeJSONProperty\<close>, \<open>SerializeJSONObject\<close> and \<open>SerializeJSONArray\<close> for a
  call of \<open>JSON.stringify\<close> with an array as replacer and no indentation. The property
  list \<open>K\<close> built from the array is the same at every depth: an object prints, in the
  order of \<open>K\<close>, the members of \<open>K\<close> it has and nothing else; an array prints every
  element. A member is read with \<open>Get\<close>, which looks through the prototype chain: of the
  names that can be in \<open>K\<close>, an object that does not have the name itself still has
  \<open>__proto__\<close>, whose value is \<open>Object.prototype\<close>, and that object prints as
  \<open>{"__proto__":null}\<close>; every other inherited property is a function or missing, and is
  left out.
\<close>

fun SerializeJSONProperty :: "string list \<Rightarrow> json \<Rightarrow> string" where
  "SerializeJSONProperty K JNull = ''null''"
| "SerializeJSONProperty K (JBool b) = (if b then ''true'' else ''false'')"
| "SerializeJSONProperty K (JNum i) = Number_toString i"
| "SerializeJSONProperty K (JStr s) = quote s"
| "SerializeJSONProperty K (JArr xs) =
     ''['' @ join (map (SerializeJSONProperty K) xs) @ '']''"
| "SerializeJSONProperty K (JObj kvs) =
     (let members = map (\<lambda>(P, v). (P, quote P @ '':'' @ SerializeJSONProperty K v)) kvs
      in ''{'' @ join (concat (map (\<lambda>P. case map_of members P of
                                           Some member \<Rightarrow> [member]
                                         | None \<Rightarrow>
                                             if P = ''__proto__''
                                             then [quote P @ '':{'' @ quote P @ '':null}'']
                                             else []) K)) @ ''}'')"

text \<open>
  The property list of an array replacer: its strings in order, each kept at its first
  occurrence only.
\<close>

definition PropertyList :: "string list \<Rightarrow> string list" where
  "PropertyList replacer = fold (\<lambda>item K. if item \<in> set K then K else K @ [item]) replacer []"

definition JSON_stringify :: "json \<Rightarrow> string list \<Rightarrow> string" where
  "JSON_stringify v replacer = SerializeJSONProperty (PropertyList replacer) v"

text \<open>
  \<open>Object.keys\<close>: the own property names of an object, the indices of an array. Only
  the sorted list is used, so the order \<open>Object.keys\<close> returns them in plays no role.
\<close>

fun Object_keys :: "json \<Rightarrow> string list" where
  "Object_keys (JObj kvs) = map fst kvs"
| "Object_keys (JArr xs) = map show_nat [0..<length xs]"
| "Object_keys _ = []"

fun is_object :: "json \<Rightarrow> bool" where
  "is_object (JObj kvs) = True"
| "is_object (JArr xs) = True"
| "is_object _ = False"

text \<open>
  The digest \<open>crypto.createHash('sha256').update(s).digest('hex')\<close> is a function of
  the Node.js runtime, not of this repository: every operation that hashes takes it as
  the parameter \<open>sha256\<close>, and every theorem below holds for every such function.
\<close>

definition generateDetailsHash :: "(string \<Rightarrow> string) \<Rightarrow> json option \<Rightarrow> string" where
  "generateDetailsHash sha256 details =
     (case details of
        None \<Rightarrow> ''''
      | Some d \<Rightarrow>
          if \<not> is_object d then ''''
          else let sortedKeys = sort (Object_keys d);
                   detailsString = JSON_stringify d sortedKeys
               in sha256 detailsString)"

definition generateCompositeKey :: "(string \<Rightarrow> string) \<Rightarrow> string \<Rightarrow> string \<Rightarrow> string" where
  "generateCompositeKey sha256 category ident = sha256 (category @ '':'' @ ident)"

section \<open>Numbers\<close>

text \<open>
  A JavaScript number is an IEEE 754 double. The finite doubles are rationals, so a
  number is one of those or one of \<open>Infinity\<close>, \<open>-Infinity\<close> and \<open>NaN\<close>. The two zeros are
  one value here, and a division by it is a division by \<open>+0\<close>: the sign of a zero shows
  only in a division by it, the divisors of this program are the constant 1000 and a
  refill rate, and a rate is held below as a rational, which is never \<open>-0\<close>.
\<close>

datatype jsnum = Num rat | Infinity | NegInfinity | NaN

text \<open>Rounding to the nearest integer, a tie to the even one.\<close>

definition round_half_even :: "rat \<Rightarrow> int" where
  "round_half_even z =
     (let f = \<lfloor>z\<rfloor>; d = z - of_int f
      in if d < 1 / 2 then f else if d > 1 / 2 then f + 1 else if even f then f else f + 1)"

text \<open>
  The binary exponent of a positive rational: the \<open>e\<close> with \<open>2^e \<le> x < 2^(e+1)\<close>, found
  from the bit lengths of numerator and denominator.
\<close>

definition ilog2 :: "rat \<Rightarrow> int" where
  "ilog2 x =
     (let (p, q) = quotient_of x; d = bitlen p - bitlen q
      in if (2 :: rat) powi d \<le> x then d else d - 1)"

text \<open>
  The double nearest to a real number, as IEEE 754 \<open>roundTiesToEven\<close> gives it and as
  ECMAScript's conversion of a mathematical value to a Number does: a positive \<open>x\<close> is
  rounded to a multiple of \<open>2^(e - 52)\<close>, where \<open>e\<close> is its exponent and at least \<open>-1022\<close>
  (below \<open>2^(-1022)\<close> the doubles are subnormal and evenly spaced); a result of \<open>2^1024\<close>
  is an overflow. Every operation of the arithmetic gives this rounding of its exact
  result.
\<close>

definition exponent :: "rat \<Rightarrow> int" where
  "exponent x = max (- 1022) (ilog2 x)"

definition round_pos :: "rat \<Rightarrow> rat" where
  "round_pos x =
     (let ulp = (2 :: rat) powi (exponent x - 52)
      in of_int (round_half_even (x / ulp)) * ulp)"

definition number_value :: "rat \<Rightarrow> jsnum" where
  "number_value x =
     (if x = 0 then Num 0
      else if x > 0 then
        (if round_pos x \<ge> 2 powi 1024 then Infinity else Num (round_pos x))
      else
        (if round_pos (- x) \<ge> 2 powi 1024 then NegInfinity else Num (- round_pos (- x))))"

text \<open>The operators \<open>+\<close>, \<open>*\<close>, \<open>/\<close> and \<open><\<close> on numbers, and \<open>Math.floor\<close>.\<close>

fun Number_add :: "jsnum \<Rightarrow> jsnum \<Rightarrow> jsnum" where
  "Number_add NaN b = NaN"
| "Number_add a NaN = NaN"
| "Number_add Infinity NegInfinity = NaN"
| "Number_add NegInfinity Infinity = NaN"
| "Number_add Infinity b = Infinity"
| "Number_add a Infinity = Infinity"
| "Number_add NegInfinity b = NegInfinity"
| "Number_add a NegInfinity = NegInfinity"
| "Number_add (Num a) (Num b) = number_value (a + b)"

fun Number_multiply :: "jsnum \<Rightarrow> jsnum \<Rightarrow> jsnum" where
  "Number_multiply NaN b = NaN"
| "Number_multiply a NaN = NaN"
| "Number_multiply Infinity Infinity = Infinity"
| "Number_multiply Infinity NegInfinity = NegInfinity"
| "Number_multiply NegInfinity Infinity = NegInfinity"
| "Number_multiply NegInfinity NegInfinity = Infinity"
| "Number_multiply Infinity (Num b) =
     (if b = 0 then NaN else if b > 0 then Infinity else NegInfinity)"
| "Number_multiply NegInfinity (Num b) =
     (if b = 0 then NaN else if b > 0 then NegInfinity else Infinity)"
| "Number_multiply (Num a) Infinity =
     (if a = 0 then NaN else if a > 0 then Infinity else NegInfinity)"
| "Number_multiply (Num a) NegInfinity =
     (if a = 0 then NaN else if a > 0 then NegInfinity else Infinity)"
| "Number_multiply (Num a) (Num b) = number_value (a * b)"

fun Number_divide :: "jsnum \<Rightarrow> jsnum \<Rightarrow> jsnum" where
  "Number_divide NaN b = NaN"
| "Number_divide a NaN = NaN"
| "Number_divide Infinity (Num b) = (if b \<ge> 0 then Infinity else NegInfinity)"
| "Number_divide NegInfinity (Num b) = (if b \<ge> 0 then NegInfinity else Infinity)"
| "Number_divide Infinity b = NaN"
| "Number_divide NegInfinity b = NaN"
| "Number_divide (Num a) Infinity = Num 0"
| "Number_divide (Num a) NegInfinity = Num 0"
| "Number_divide (Num a) (Num b) =
     (if b = 0 then (if a = 0 then NaN else if a > 0 then Infinity else NegInfinity)
      else number_value (a / b))"

fun Number_lessThan :: "jsnum \<Rightarrow> jsnum \<Rightarrow> bool" where
  "Number_lessThan NaN b = False"
| "Number_lessThan a NaN = False"
| "Number_lessThan Infinity b = False"
| "Number_lessThan a NegInfinity = False"
| "Number_lessThan NegInfinity b = True"
| "Number_lessThan a Infinity = True"
| "Number_lessThan (Num a) (Num b) = (a < b)"

fun Math_floor :: "jsnum \<Rightarrow> jsnum" where
  "Math_floor (Num x) = Num (of_int \<lfloor>x\<rfloor>)"
| "Math_floor x = x"

section \<open>Event records\<close>

text \<open>
  Timestamps, durations, counts, tokens and the bucket size are integers, on which the
  arithmetic of doubles is exact up to \<open>2^53\<close>; they are taken as exact. A refill rate is
  written as a rational and stands for the double nearest to it, as the literal or the
  quotient that gives it in JavaScript does: \<open>ToNumber\<close> below reads it. What is computed
  from a rate is computed in doubles. \<open>null\<close> in \<open>scheduledSendAt\<close> is \<open>None\<close>.
\<close>

text \<open>
  The \<open>config\<close> object of a record, with the four properties the strategies read. A
  property the object does not have is \<open>None\<close>. The patch of \<open>updateConfig\<close> is an
  object of the same shape.
\<close>

record recordConfig =
  config_limit :: "int option"
  config_deferInterval :: "int option"
  config_bucketSize :: "int option"
  config_refillRate :: "rat option"

record bucketState =
  tokens :: int
  lastRefill :: int

record eventRecord =
  key :: string
  category :: string
  ident :: string
  details :: "json option"
  detailsHash :: string
  count :: int
  lastEventTime :: int
  expiresAt :: int
  deferred :: bool
  scheduledSendAt :: "jsnum option"
  config :: recordConfig
  strategyData :: "bucketState option"

datatype outcome = Immediate | Deferred | Ignored

datatype error = TypeError

section \<open>The tracker and its strategies\<close>

datatype strategy =
    SimpleCounterStrategy
  | TokenBucketStrategy (bucketSize: int) (refillRate: rat)

text \<open>
  The fields the constructor of \<open>EventTracker\<close> sets from its options. A strategy
  reads \<open>limit\<close>, \<open>deferInterval\<close> and \<open>expireTime\<close> from the tracker it was built
  for, which is taken to be the tracker that holds it, as the constructor's default
  \<open>new SimpleCounterStrategy(this)\<close> has it. The store is the default one, the
  \<open>InMemoryAdapter\<close>.
\<close>

record tracker =
  limit :: int
  deferInterval :: int
  expireTime :: int
  maxKeys :: int
  strategy :: strategy

definition DEFAULT_LIMIT :: int where
  "DEFAULT_LIMIT = 5"

definition DEFAULT_DEFER_INTERVAL_MS :: int where
  "DEFAULT_DEFER_INTERVAL_MS = 60 * 60 * 1000"

definition DEFAULT_EXPIRE_TIME_MS :: int where
  "DEFAULT_EXPIRE_TIME_MS = 24 * 60 * 60 * 1000"

definition default_tracker :: tracker where
  "default_tracker =
     \<lparr> limit = DEFAULT_LIMIT, deferInterval = DEFAULT_DEFER_INTERVAL_MS,
       expireTime = DEFAULT_EXPIRE_TIME_MS, maxKeys = 0, strategy = SimpleCounterStrategy \<rparr>"

text \<open>
  \<open>count > config.limit\<close> and \<open>now + config.deferInterval\<close> where the property may be
  missing: a comparison with \<open>undefined\<close> is false, a sum with it is \<open>NaN\<close>.
\<close>

definition js_gt :: "int \<Rightarrow> int option \<Rightarrow> bool" where
  "js_gt a b = (case b of None \<Rightarrow> False | Some b' \<Rightarrow> a > b')"

definition js_add :: "int \<Rightarrow> int option \<Rightarrow> jsnum" where
  "js_add a b = (case b of None \<Rightarrow> NaN | Some b' \<Rightarrow> Num (of_int (a + b')))"

text \<open>
  \<open>SimpleCounterStrategy.track\<close>. The arguments after the record are the fields of
  \<open>eventData\<close>; \<open>now\<close> is the reading of \<open>Date.now()\<close>.
\<close>

definition SimpleCounterStrategy_track ::
  "tracker \<Rightarrow> int \<Rightarrow> eventRecord option \<Rightarrow> string \<Rightarrow> string \<Rightarrow> string \<Rightarrow> json option \<Rightarrow> string
     \<Rightarrow> outcome \<times> eventRecord" where
  "SimpleCounterStrategy_track T now record compositeKey cat idt dets dHash =
     (let updatedRecord =
            (case record of
               None \<Rightarrow>
                 \<lparr> key = compositeKey, category = cat, ident = idt, details = dets,
                   detailsHash = dHash, count = 1, lastEventTime = now,
                   expiresAt = now + expireTime T, deferred = False, scheduledSendAt = None,
                   config = \<lparr> config_limit = Some (limit T),
                              config_deferInterval = Some (deferInterval T),
                              config_bucketSize = None, config_refillRate = None \<rparr>,
                   strategyData = None \<rparr>
             | Some r \<Rightarrow>
                 r\<lparr> count := count r + 1, lastEventTime := now,
                    expiresAt := now + expireTime T \<rparr>)
      in if deferred updatedRecord then (Ignored, updatedRecord)
         else if js_gt (count updatedRecord) (config_limit (config updatedRecord)) then
           (Deferred,
            updatedRecord\<lparr> deferred := True,
              scheduledSendAt :=
                Some (js_add now (config_deferInterval (config updatedRecord))) \<rparr>)
         else (Immediate, updatedRecord))"

text \<open>
  A property of \<open>config\<close> read as an operand of the arithmetic: a missing one is
  \<open>undefined\<close>, whose number is \<open>NaN\<close>.
\<close>

definition ToNumber :: "rat option \<Rightarrow> jsnum" where
  "ToNumber v = (case v of None \<Rightarrow> NaN | Some x \<Rightarrow> number_value x)"

text \<open>
  The refill of \<open>TokenBucketStrategy.track\<close>: \<open>tokensToAdd\<close>, and the value of
  \<open>currentTokens\<close> after the conditional that refills. \<open>Math.min\<close> of a missing
  \<open>config.bucketSize\<close> is \<open>NaN\<close>, here \<open>None\<close>; \<open>tokens + Infinity\<close> is \<open>Infinity\<close>, and
  the minimum is then the bucket size. \<open>tokensToAdd\<close> is a positive number or \<open>Infinity\<close>
  where the minimum is taken.
\<close>

definition tokensToAdd :: "int \<Rightarrow> bucketState \<Rightarrow> recordConfig \<Rightarrow> jsnum" where
  "tokensToAdd now sd cfg =
     (let elapsedSeconds = Number_divide (Num (of_int (now - lastRefill sd))) (Num 1000)
      in Math_floor (Number_multiply elapsedSeconds (ToNumber (config_refillRate cfg))))"

definition currentTokens :: "int \<Rightarrow> bucketState \<Rightarrow> recordConfig \<Rightarrow> int option" where
  "currentTokens now sd cfg =
     (if Number_lessThan (Num 0) (tokensToAdd now sd cfg) then
        (case config_bucketSize cfg of
           None \<Rightarrow> None
         | Some b \<Rightarrow>
             (case tokensToAdd now sd cfg of
                Num n \<Rightarrow> Some (min b (tokens sd + \<lfloor>n\<rfloor>))
              | Infinity \<Rightarrow> Some b
              | _ \<Rightarrow> None))
      else Some (tokens sd))"

text \<open>
  \<open>TokenBucketStrategy.track\<close>. Reading \<open>strategyData\<close> of a record that has none
  throws. Every comparison with \<open>NaN\<close> is false, so that a \<open>currentTokens\<close> of \<open>NaN\<close>
  suppresses. \<open>1 / config.refillRate\<close> is \<open>Infinity\<close> at rate zero and \<open>NaN\<close> when the
  rate is missing.
\<close>

definition TokenBucketStrategy_track ::
  "int \<Rightarrow> rat \<Rightarrow> tracker \<Rightarrow> int \<Rightarrow> eventRecord option \<Rightarrow> string \<Rightarrow> string \<Rightarrow> string
     \<Rightarrow> json option \<Rightarrow> string \<Rightarrow> error + outcome \<times> eventRecord" where
  "TokenBucketStrategy_track bSize rRate T now record compositeKey cat idt dets dHash =
     (case record of
        None \<Rightarrow>
          Inr (Immediate,
               \<lparr> key = compositeKey, category = cat, ident = idt, details = dets,
                 detailsHash = dHash, count = 1, lastEventTime = now,
                 expiresAt = now + expireTime T, deferred = False, scheduledSendAt = None,
                 config = \<lparr> config_limit = None,
                            config_deferInterval = Some (deferInterval T),
                            config_bucketSize = Some bSize,
                            config_refillRate = Some rRate \<rparr>,
                 strategyData = Some \<lparr> tokens = bSize - 1, lastRefill = now \<rparr> \<rparr>)
      | Some updatedRecord \<Rightarrow>
          (case strategyData updatedRecord of
             None \<Rightarrow> Inl TypeError
           | Some sd \<Rightarrow>
               let cfg = config updatedRecord;
                   refill = Number_lessThan (Num 0) (tokensToAdd now sd cfg);
                   sd' = (if refill then sd\<lparr> lastRefill := now \<rparr> else sd);
                   secondsPerToken = Number_divide (Num 1) (ToNumber (config_refillRate cfg));
                   suppressed =
                     updatedRecord\<lparr> strategyData := Some sd',
                       deferred := True,
                       scheduledSendAt :=
                         Some (Number_add (Num (of_int now))
                                 (Number_multiply secondsPerToken (Num 1000))) \<rparr>
               in (case currentTokens now sd cfg of
                    None \<Rightarrow> Inr (Deferred, suppressed)
                  | Some c \<Rightarrow>
                      if c \<ge> 1 then
                        Inr (Immediate,
                             updatedRecord\<lparr> strategyData := Some (sd'\<lparr> tokens := c - 1 \<rparr>),
                               count := count updatedRecord + 1,
                               lastEventTime := now,
                               expiresAt := now + expireTime T,
                               deferred := False,
                               scheduledSendAt := None \<rparr>)
                      else Inr (Deferred, suppressed))))"

definition strategy_track ::
  "tracker \<Rightarrow> int \<Rightarrow> eventRecord option \<Rightarrow> string \<Rightarrow> string \<Rightarrow> string \<Rightarrow> json option \<Rightarrow> string
     \<Rightarrow> error + outcome \<times> eventRecord" where
  "strategy_track T now record compositeKey cat idt dets dHash =
     (case strategy T of
        SimpleCounterStrategy \<Rightarrow>
          Inr (SimpleCounterStrategy_track T now record compositeKey cat idt dets dHash)
      | TokenBucketStrategy bSize rRate \<Rightarrow>
          TokenBucketStrategy_track bSize rRate T now record compositeKey cat idt dets dHash)"

section \<open>The in-memory storage adapter\<close>

text \<open>
  \<open>InMemoryAdapter\<close> keeps a JavaScript \<open>Map\<close>, which iterates in insertion order:
  the store is the list of its entries in that order. \<open>Map.set\<close> replaces the value of a
  key in place or appends a new entry, \<open>Map.delete\<close> removes the entry.
\<close>

type_synonym storage = "(string \<times> eventRecord) list"

definition storage_get :: "string \<Rightarrow> storage \<Rightarrow> eventRecord option" where
  "storage_get k S = map_of S k"

definition storage_set :: "string \<Rightarrow> eventRecord \<Rightarrow> storage \<Rightarrow> storage" where
  "storage_set k r S = AList.update k r S"

definition storage_delete :: "string \<Rightarrow> storage \<Rightarrow> storage" where
  "storage_delete k S = AList.delete k S"

definition storage_size :: "storage \<Rightarrow> int" where
  "storage_size S = int (length S)"

text \<open>
  The test \<open>record.deferred && record.scheduledSendAt && timestamp >= record.scheduledSendAt\<close>:
  \<open>null\<close>, \<open>0\<close> and \<open>NaN\<close> are falsy, no timestamp reaches \<open>Infinity\<close>, and every
  timestamp is at least \<open>-Infinity\<close>.
\<close>

fun due_at :: "int \<Rightarrow> jsnum option \<Rightarrow> bool" where
  "due_at timestamp None = False"
| "due_at timestamp (Some (Num x)) = (x \<noteq> 0 \<and> of_int timestamp \<ge> x)"
| "due_at timestamp (Some Infinity) = False"
| "due_at timestamp (Some NegInfinity) = True"
| "due_at timestamp (Some NaN) = False"

definition findDueDeferred :: "int \<Rightarrow> storage \<Rightarrow> eventRecord list" where
  "findDueDeferred timestamp S =
     filter (\<lambda>r. deferred r \<and> due_at timestamp (scheduledSendAt r)) (map snd S)"

definition purgeExpired :: "int \<Rightarrow> storage \<Rightarrow> storage" where
  "purgeExpired now S = filter (\<lambda>(k, r). \<not> now > expiresAt r) S"

section \<open>The coordinator\<close>

text \<open>
  What a call returns, and what it emits. \<open>Tracked outcome r\<close> is
  \<open>{ type: outcome, data: r }\<close>; \<open>KeyLimitReached\<close> is
  \<open>{ type: 'ignored', reason: 'key_limit_reached' }\<close>.
\<close>

datatype trackResult = Tracked outcome eventRecord | KeyLimitReached

fun result_type :: "trackResult \<Rightarrow> outcome" where
  "result_type (Tracked out r) = out"
| "result_type KeyLimitReached = Ignored"

fun result_data :: "trackResult \<Rightarrow> eventRecord option" where
  "result_data (Tracked out r) = Some r"
| "result_data KeyLimitReached = None"

datatype notification =
    Emit_tracked eventRecord
  | Emit_outcome outcome eventRecord
  | Emit_key_limit_reached string string "json option"
  | Emit_processed eventRecord
  | Emit_config_updated eventRecord

text \<open>
  \<open>trackEvent\<close>, with the store passed in and returned. One call is taken at one
  instant: \<open>now\<close> is the reading of \<open>Date.now()\<close> both in the coordinator and in the
  strategy.
\<close>

definition trackEvent ::
  "(string \<Rightarrow> string) \<Rightarrow> tracker \<Rightarrow> int \<Rightarrow> string \<Rightarrow> string \<Rightarrow> json option \<Rightarrow> storage
     \<Rightarrow> error + trackResult \<times> storage \<times> notification list" where
  "trackEvent sha256 T now cat idt dets S =
     (let compositeKey = generateCompositeKey sha256 cat idt;
          dHash = generateDetailsHash sha256 dets;
          stored = storage_get compositeKey S;
          isExpired = (case stored of None \<Rightarrow> False | Some r \<Rightarrow> now > expiresAt r);
          detailsChanged = (case stored of None \<Rightarrow> False | Some r \<Rightarrow> detailsHash r \<noteq> dHash);
          record = (if isExpired \<or> detailsChanged then None else stored)
      in if record = None \<and> maxKeys T > 0 \<and> storage_size S \<ge> maxKeys T then
           Inr (KeyLimitReached, S, [Emit_key_limit_reached cat idt dets])
         else
           (case strategy_track T now record compositeKey cat idt dets dHash of
              Inl e \<Rightarrow> Inl e
            | Inr (out, updatedRecord) \<Rightarrow>
                Inr (Tracked out updatedRecord,
                     storage_set compositeKey updatedRecord S,
                     [Emit_tracked updatedRecord, Emit_outcome out updatedRecord])))"

definition processDeferredEvents ::
  "int \<Rightarrow> storage \<Rightarrow> eventRecord list \<times> storage \<times> notification list" where
  "processDeferredEvents now S =
     (let dueEvents = findDueDeferred now S
      in (dueEvents,
          fold (\<lambda>event. storage_delete (key event)) dueEvents S,
          map Emit_processed dueEvents))"

text \<open>\<open>{ ...record.config, ...newConfig }\<close>: a property of the patch wins.\<close>

definition spread :: "recordConfig \<Rightarrow> recordConfig \<Rightarrow> recordConfig" where
  "spread old newConfig =
     \<lparr> config_limit =
         (case config_limit newConfig of None \<Rightarrow> config_limit old | Some v \<Rightarrow> Some v),
       config_deferInterval =
         (case config_deferInterval newConfig of
            None \<Rightarrow> config_deferInterval old | Some v \<Rightarrow> Some v),
       config_bucketSize =
         (case config_bucketSize newConfig of None \<Rightarrow> config_bucketSize old | Some v \<Rightarrow> Some v),
       config_refillRate =
         (case config_refillRate newConfig of None \<Rightarrow> config_refillRate old | Some v \<Rightarrow> Some v) \<rparr>"

definition updateConfig ::
  "(string \<Rightarrow> string) \<Rightarrow> string \<Rightarrow> string \<Rightarrow> recordConfig \<Rightarrow> storage
     \<Rightarrow> bool \<times> storage \<times> notification list" where
  "updateConfig sha256 cat idt newConfig S =
     (let compositeKey = generateCompositeKey sha256 cat idt
      in case storage_get compositeKey S of
           None \<Rightarrow> (False, S, [])
         | Some record \<Rightarrow>
             (let record' = record\<lparr> config := spread (config record) newConfig \<rparr>
              in (True, storage_set compositeKey record' S, [Emit_config_updated record'])))"

text \<open>
  A run of \<open>trackEvent\<close> calls with the same category, identifier and details, one call
  at each of the given instants, each on the store the call before it left.
\<close>

fun trackEvents ::
  "(string \<Rightarrow> string) \<Rightarrow> tracker \<Rightarrow> string \<Rightarrow> string \<Rightarrow> json option \<Rightarrow> int list \<Rightarrow> storage
     \<Rightarrow> error + trackResult list \<times> storage" where
  "trackEvents sha256 T cat idt dets [] S = Inr ([], S)"
| "trackEvents sha256 T cat idt dets (now # nows) S =
     (case trackEvent sha256 T now cat idt dets S of
        Inl e \<Rightarrow> Inl e
      | Inr (res, S', emitted) \<Rightarrow>
          (case trackEvents sha256 T cat idt dets nows S' of
             Inl e \<Rightarrow> Inl e
           | Inr (rs, S'') \<Rightarrow> Inr (res # rs, S'')))"

text \<open>No call of the run finds the record expired: each instant is at most the
  \<open>expiresAt\<close> the call before it set, which is that call's instant plus \<open>expireTime\<close>.\<close>

fun no_expiry :: "int \<Rightarrow> int list \<Rightarrow> bool" where
  "no_expiry e (t1 # t2 # ts) = (t2 \<le> t1 + e \<and> no_expiry e (t2 # ts))"
| "no_expiry e ts = True"

section \<open>Notions the properties are stated with\<close>

text \<open>The guard of \<open>trackEvent\<close> on the number of keys: \<open>maxKeys\<close> is set and reached.\<close>

definition key_limit_reached :: "tracker \<Rightarrow> storage \<Rightarrow> bool" where
  "key_limit_reached T S = (maxKeys T > 0 \<and> storage_size S \<ge> maxKeys T)"

text \<open>
  The outcome the counter strategy gives the call number \<open>i\<close> of a run, counted from
  zero, under limit \<open>L\<close>.
\<close>

definition counter_outcome :: "int \<Rightarrow> nat \<Rightarrow> outcome" where
  "counter_outcome L i = (if i < nat L then Immediate else if i = nat L then Deferred else Ignored)"

text \<open>The \<open>type\<close> of each result of a run, and the \<open>data.count\<close> of each.\<close>

definition outcomes_of :: "error + trackResult list \<times> storage \<Rightarrow> outcome list" where
  "outcomes_of run = (case run of Inl e \<Rightarrow> [] | Inr (rs, S) \<Rightarrow> map result_type rs)"

definition counts_of :: "error + trackResult list \<times> storage \<Rightarrow> int option list" where
  "counts_of run =
     (case run of Inl e \<Rightarrow> [] | Inr (rs, S) \<Rightarrow> map (map_option count \<circ> result_data) rs)"

text \<open>The \<open>config\<close> a strategy gives a record it creates: the tracker's configuration at
  that moment.\<close>

definition snapshot :: "tracker \<Rightarrow> recordConfig" where
  "snapshot T =
     (case strategy T of
        SimpleCounterStrategy \<Rightarrow>
          \<lparr> config_limit = Some (limit T), config_deferInterval = Some (deferInterval T),
            config_bucketSize = None, config_refillRate = None \<rparr>
      | TokenBucketStrategy bSize rRate \<Rightarrow>
          \<lparr> config_limit = None, config_deferInterval = Some (deferInterval T),
            config_bucketSize = Some bSize, config_refillRate = Some rRate \<rparr>)"

text \<open>
  The value of \<open>now + (1 / config.refillRate) * 1000\<close> for the rate of a config, each
  operation in doubles.
\<close>

definition retry_at :: "int \<Rightarrow> recordConfig \<Rightarrow> jsnum" where
  "retry_at now cfg =
     Number_add (Num (of_int now))
       (Number_multiply (Number_divide (Num 1) (ToNumber (config_refillRate cfg))) (Num 1000))"

text \<open>\<open>a <= b\<close> on numbers.\<close>

fun js_le :: "jsnum \<Rightarrow> jsnum \<Rightarrow> bool" where
  "js_le NaN b = False"
| "js_le a NaN = False"
| "js_le NegInfinity b = True"
| "js_le a Infinity = True"
| "js_le (Num a) (Num b) = (a \<le> b)"
| "js_le a b = False"

text \<open>
  No token is available to a call at \<open>now\<close>: after the refill \<open>currentTokens >= 1\<close> is
  false.
\<close>

definition no_token :: "int \<Rightarrow> bucketState \<Rightarrow> recordConfig \<Rightarrow> bool" where
  "no_token now sd cfg = (case currentTokens now sd cfg of None \<Rightarrow> True | Some c \<Rightarrow> c < 1)"

text \<open>
  Every record is stored under its own \<open>key\<close>. The coordinator writes the store in no
  other way: the empty store is so, and every operation keeps it so (shown below).
\<close>

definition keyed :: "storage \<Rightarrow> bool" where
  "keyed S = list_all (\<lambda>(k, r). key r = k) S"

text \<open>
  Two records for the examples, each as the tracker leaves it under the key \<open>k\<close> of
  category \<open>api_error\<close> and identifier \<open>db\<close> (shown below). The first is what the
  default tracker holds after nine occurrences without details at instant 0: deferred at
  the sixth, due one hour later, expiring after a day. The second is what a tracker with a
  token bucket of size 1 and rate 1 holds after two occurrences at instant 0: the only
  token is spent and the second occurrence was suppressed.
\<close>

definition counter_record :: "string \<Rightarrow> eventRecord" where
  "counter_record k =
     \<lparr> key = k, category = ''api_error'', ident = ''db'', details = None, detailsHash = '''',
       count = 9, lastEventTime = 0, expiresAt = 86400000, deferred = True,
       scheduledSendAt = Some (Num 3600000),
       config = \<lparr> config_limit = Some 5, config_deferInterval = Some 3600000,
                  config_bucketSize = None, config_refillRate = None \<rparr>,
       strategyData = None \<rparr>"

definition bucket_record :: "string \<Rightarrow> eventRecord" where
  "bucket_record k =
     \<lparr> key = k, category = ''api_error'', ident = ''db'', details = None, detailsHash = '''',
       count = 1, lastEventTime = 0, expiresAt = 86400000, deferred = True,
       scheduledSendAt = Some (Num 1000),
       config = \<lparr> config_limit = None, config_deferInterval = Some 3600000,
                  config_bucketSize = Some 1, config_refillRate = Some 1 \<rparr>,
       strategyData = Some \<lparr> tokens = 0, lastRefill = 0 \<rparr> \<rparr>"

section \<open>Rounding to doubles\<close>

text \<open>
  Rounding to the nearest integer is monotone; the exponent found from the bit lengths is
  the binary exponent; rounding to a double is monotone, and keeps every integer up to
  \<open>2^53\<close> in magnitude.
\<close>

lemma round_half_even_of_int [simp]: "round_half_even (of_int n) = n"
  by (simp add: round_half_even_def)

lemma round_half_even_bounds:
  "\<lfloor>z\<rfloor> \<le> round_half_even z \<and> round_half_even z \<le> \<lfloor>z\<rfloor> + 1"
  by (simp add: round_half_even_def Let_def)

lemma round_half_even_mono:
  assumes "z \<le> w"
  shows "round_half_even z \<le> round_half_even w"
proof (cases "\<lfloor>z\<rfloor> = \<lfloor>w\<rfloor>")
  case True
  with assms show ?thesis
    by (auto simp add: round_half_even_def Let_def)
next
  case False
  with assms have "\<lfloor>z\<rfloor> + 1 \<le> \<lfloor>w\<rfloor>"
    using floor_mono [OF assms] by linarith
  with round_half_even_bounds [of z] round_half_even_bounds [of w] show ?thesis
    by linarith
qed

lemma bitlen_powi:
  assumes "0 < p"
  shows "(2 :: rat) powi (bitlen p - 1) \<le> of_int p \<and> of_int p < (2 :: rat) powi bitlen p"
proof -
  from assms have b: "2 ^ nat (bitlen p - 1) \<le> p" "p < 2 ^ nat (bitlen p)"
    using bitlen_bounds [of p] by simp_all
  have pos: "1 \<le> bitlen p"
    using assms bitlen_eq_zero_iff [of p] bitlen_nonneg [of p] by linarith
  have "(2 :: rat) powi (bitlen p - 1) = 2 ^ nat (bitlen p - 1)"
    using pos by (simp add: power_int_def)
  moreover have "(2 :: rat) powi bitlen p = 2 ^ nat (bitlen p)"
    using pos by (simp add: power_int_def)
  moreover have "(2 :: rat) ^ nat (bitlen p - 1) \<le> of_int p"
    using b(1) by (metis of_int_le_iff of_int_numeral of_int_power)
  moreover have "of_int p < (2 :: rat) ^ nat (bitlen p)"
    using b(2) by (metis of_int_less_iff of_int_numeral of_int_power)
  ultimately show ?thesis by simp
qed

lemma ilog2_bounds:
  assumes "0 < x"
  shows "(2 :: rat) powi ilog2 x \<le> x \<and> x < 2 powi (ilog2 x + 1)"
proof -
  obtain p q where pq: "quotient_of x = (p, q)" by (cases "quotient_of x")
  then have q: "0 < q" and x: "x = of_int p / of_int q"
    using quotient_of_denom_pos quotient_of_div by blast+
  from assms x q have p: "0 < p"
    by (simp add: zero_less_divide_iff)
  let ?d = "bitlen p - bitlen q"
  note bp = bitlen_powi [OF p] and bq = bitlen_powi [OF q]
  have qpos: "(0 :: rat) < of_int q" using q by simp
  have up: "x < 2 powi (?d + 1)"
  proof -
    have "x < 2 powi bitlen p / of_int q"
      unfolding x using bp qpos by (simp add: divide_strict_right_mono)
    also have "\<dots> \<le> 2 powi bitlen p / 2 powi (bitlen q - 1)"
    proof (rule divide_left_mono)
      show "(2 :: rat) powi (bitlen q - 1) \<le> of_int q" using bq by simp
      show "(0 :: rat) \<le> 2 powi bitlen p" by simp
      show "(0 :: rat) < of_int q * 2 powi (bitlen q - 1)" using qpos by simp
    qed
    also have "\<dots> = 2 powi (bitlen p - (bitlen q - 1))"
      by (rule power_int_diff [symmetric]) simp
    also have "\<dots> = 2 powi (?d + 1)"
      by (rule arg_cong [where f = "\<lambda>e. 2 powi e"]) simp
    finally show ?thesis .
  qed
  have low: "2 powi (?d - 1) \<le> x"
  proof -
    have "(2 :: rat) powi (?d - 1) = 2 powi (bitlen p - 1 - bitlen q)"
      by (rule arg_cong [where f = "\<lambda>e. 2 powi e"]) simp
    also have "\<dots> = 2 powi (bitlen p - 1) / 2 powi bitlen q"
      by (rule power_int_diff) simp
    also have "\<dots> \<le> 2 powi (bitlen p - 1) / of_int q"
    proof (rule divide_left_mono)
      show "of_int q \<le> (2 :: rat) powi bitlen q" using bq by simp
      show "(0 :: rat) \<le> 2 powi (bitlen p - 1)" by simp
      show "(0 :: rat) < 2 powi bitlen q * of_int q" using qpos by simp
    qed
    also have "\<dots> \<le> x"
      unfolding x using bp qpos by (simp add: divide_right_mono)
    finally show ?thesis .
  qed
  show ?thesis
  proof (cases "(2 :: rat) powi ?d \<le> x")
    case True
    then show ?thesis using up pq by (simp add: ilog2_def)
  next
    case False
    then show ?thesis using low pq by (simp add: ilog2_def)
  qed
qed

lemma ilog2_unique:
  assumes "(2 :: rat) powi e \<le> x" and "x < 2 powi (e + 1)"
  shows "ilog2 x = e"
proof -
  have "(0 :: rat) < 2 powi e" by simp
  with assms(1) have "0 < x" by linarith
  note b = ilog2_bounds [OF this]
  have "\<not> ilog2 x < e"
  proof
    assume "ilog2 x < e"
    then have "(2 :: rat) powi (ilog2 x + 1) \<le> 2 powi e"
      by (intro power_int_increasing) auto
    with b assms show False by linarith
  qed
  moreover have "\<not> e < ilog2 x"
  proof
    assume "e < ilog2 x"
    then have "(2 :: rat) powi (e + 1) \<le> 2 powi ilog2 x"
      by (intro power_int_increasing) auto
    with b assms show False by linarith
  qed
  ultimately show ?thesis by linarith
qed

lemma ilog2_mono:
  assumes "0 < x" and "x \<le> y"
  shows "ilog2 x \<le> ilog2 y"
proof (rule ccontr)
  assume "\<not> ilog2 x \<le> ilog2 y"
  then have "(2 :: rat) powi (ilog2 y + 1) \<le> 2 powi ilog2 x"
    by (intro power_int_increasing) auto
  with ilog2_bounds [OF assms(1)] ilog2_bounds [of y] assms show False by linarith
qed

lemma exponent_mono: "0 < x \<Longrightarrow> x \<le> y \<Longrightarrow> exponent x \<le> exponent y"
  using ilog2_mono [of x y] by (simp add: exponent_def)

lemma exponent_upper: "0 < x \<Longrightarrow> x < 2 powi (exponent x + 1)"
proof -
  assume x: "0 < x"
  have "(2 :: rat) powi (ilog2 x + 1) \<le> 2 powi (exponent x + 1)"
    by (intro power_int_increasing) (auto simp add: exponent_def)
  with ilog2_bounds [OF x] show ?thesis by linarith
qed

lemma round_pos_nonneg: "0 < x \<Longrightarrow> 0 \<le> round_pos x"
proof -
  assume x: "0 < x"
  let ?u = "(2 :: rat) powi (exponent x - 52)"
  have u: "0 < ?u" by simp
  then have "0 \<le> x / ?u" using x by simp
  then have "of_int 0 \<le> x / ?u" by simp
  then have "round_half_even (of_int 0) \<le> round_half_even (x / ?u)"
    by (rule round_half_even_mono)
  moreover have "round_half_even (of_int 0) = 0" by (rule round_half_even_of_int)
  ultimately have "0 \<le> round_half_even (x / ?u)" by (simp only:)
  then show ?thesis using u by (simp add: round_pos_def Let_def)
qed

lemma round_pos_le_next_binade:
  assumes x: "0 < x"
  shows "round_pos x \<le> 2 powi (exponent x + 1)"
proof -
  let ?e = "exponent x"
  let ?u = "(2 :: rat) powi (?e - 52)"
  have u: "0 < ?u" by simp
  have g: "(2 :: rat) powi (?e + 1) = of_int (2 ^ 53) * ?u"
  proof -
    have "(2 :: rat) powi (?e + 1) = 2 powi (53 + (?e - 52))"
      by (rule arg_cong [where f = "\<lambda>e. 2 powi e"]) simp
    also have "\<dots> = 2 powi 53 * ?u" by (rule power_int_add) simp
    finally show ?thesis by simp
  qed
  have "x / ?u \<le> of_int (2 ^ 53)"
    using exponent_upper [OF x] u unfolding g by (simp add: pos_divide_le_eq)
  then have "round_half_even (x / ?u) \<le> round_half_even (of_int (2 ^ 53))"
    by (rule round_half_even_mono)
  moreover have "round_half_even (of_int (2 ^ 53)) = 2 ^ 53" by (rule round_half_even_of_int)
  ultimately have "round_half_even (x / ?u) \<le> 2 ^ 53" by (simp only:)
  then have "(of_int (round_half_even (x / ?u)) :: rat) \<le> of_int (2 ^ 53)"
    by (simp only: of_int_le_iff)
  then have "of_int (round_half_even (x / ?u)) * ?u \<le> of_int (2 ^ 53) * ?u"
    using u by (simp only: mult_le_cancel_right_pos)
  then show ?thesis unfolding g by (simp add: round_pos_def Let_def)
qed

lemma round_pos_ge_binade:
  assumes x: "0 < x" and n: "- 1022 < ilog2 x"
  shows "2 powi (exponent x) \<le> round_pos x"
proof -
  let ?e = "exponent x"
  let ?u = "(2 :: rat) powi (?e - 52)"
  have e: "?e = ilog2 x" using n by (simp add: exponent_def)
  have u: "0 < ?u" by simp
  have g: "(2 :: rat) powi ?e = of_int (2 ^ 52) * ?u"
  proof -
    have "(2 :: rat) powi ?e = 2 powi (52 + (?e - 52))"
      by (rule arg_cong [where f = "\<lambda>e. 2 powi e"]) simp
    also have "\<dots> = 2 powi 52 * ?u" by (rule power_int_add) simp
    finally show ?thesis by simp
  qed
  have "2 powi ?e \<le> x" using ilog2_bounds [OF x] e by simp
  then have "of_int (2 ^ 52) \<le> x / ?u"
    using u unfolding g by (simp add: pos_le_divide_eq)
  then have "round_half_even (of_int (2 ^ 52)) \<le> round_half_even (x / ?u)"
    by (rule round_half_even_mono)
  moreover have "round_half_even (of_int (2 ^ 52)) = 2 ^ 52" by (rule round_half_even_of_int)
  ultimately have "2 ^ 52 \<le> round_half_even (x / ?u)" by (simp only:)
  then have "(of_int (2 ^ 52) :: rat) \<le> of_int (round_half_even (x / ?u))"
    by (simp only: of_int_le_iff)
  then have "of_int (2 ^ 52) * ?u \<le> of_int (round_half_even (x / ?u)) * ?u"
    using u by (simp only: mult_le_cancel_right_pos)
  then show ?thesis unfolding g by (simp add: round_pos_def Let_def)
qed

lemma round_pos_mono:
  assumes x: "0 < x" and xy: "x \<le> y"
  shows "round_pos x \<le> round_pos y"
proof (cases "exponent x = exponent y")
  case True
  let ?u = "(2 :: rat) powi (exponent y - 52)"
  have u: "0 < ?u" by simp
  have "x / ?u \<le> y / ?u" using xy u by (simp add: divide_right_mono)
  then have "round_half_even (x / ?u) \<le> round_half_even (y / ?u)"
    by (rule round_half_even_mono)
  then have "(of_int (round_half_even (x / ?u)) :: rat) \<le> of_int (round_half_even (y / ?u))"
    by (simp only: of_int_le_iff)
  then have "of_int (round_half_even (x / ?u)) * ?u \<le> of_int (round_half_even (y / ?u)) * ?u"
    using u by (simp only: mult_le_cancel_right_pos)
  then show ?thesis using True by (simp add: round_pos_def Let_def)
next
  case False
  have y: "0 < y" using x xy by linarith
  from False exponent_mono [OF x xy] have lt: "exponent x < exponent y" by linarith
  then have n: "- 1022 < ilog2 y" by (auto simp add: exponent_def)
  have "round_pos x \<le> 2 powi (exponent x + 1)" by (rule round_pos_le_next_binade [OF x])
  also have "\<dots> \<le> 2 powi (exponent y)"
    using lt by (intro power_int_increasing) auto
  also have "\<dots> \<le> round_pos y" by (rule round_pos_ge_binade [OF y n])
  finally show ?thesis .
qed

lemma number_value_mono:
  assumes "x \<le> y"
  shows "js_le (number_value x) (number_value y)"
proof -
  consider "0 < x" | "x = 0" | "x < 0" "y < 0" | "x < 0" "y = 0" | "x < 0" "0 < y"
    using assms by linarith
  then show ?thesis
  proof cases
    case 1
    then have y: "0 < y" using assms by linarith
    from round_pos_mono [OF 1 assms] show ?thesis
      using 1 y by (auto simp add: number_value_def)
  next
    case 2
    then have "y = 0 \<or> 0 < y" using assms by linarith
    then show ?thesis
      using 2 round_pos_nonneg [of y] by (auto simp add: number_value_def)
  next
    case 3
    then have "0 < - y" "- y \<le> - x" using assms by simp_all
    from round_pos_mono [OF this] show ?thesis
      using 3 by (auto simp add: number_value_def)
  next
    case 4
    then show ?thesis
      using round_pos_nonneg [of "- x"] by (auto simp add: number_value_def)
  next
    case 5
    then show ?thesis
      using round_pos_nonneg [of "- x"] round_pos_nonneg [of y]
      by (auto simp add: number_value_def)
  qed
qed

lemma round_pos_grid:
  assumes "x = of_int m * 2 powi (exponent x - 52)"
  shows "round_pos x = x"
proof -
  let ?u = "(2 :: rat) powi (exponent x - 52)"
  have u: "?u \<noteq> 0" by simp
  have "x / ?u = of_int m" using assms u by (metis nonzero_mult_div_cancel_right)
  then have "round_half_even (x / ?u) = m" by simp
  then show ?thesis using assms by (simp add: round_pos_def Let_def)
qed

lemma round_pos_int:
  assumes n: "0 < n" and b: "n \<le> 2 ^ 53"
  shows "round_pos (of_int n) = of_int n"
proof -
  let ?x = "of_int n :: rat"
  have x: "0 < ?x" using n by simp
  have "?x < 2 powi 54"
  proof -
    have "n < 2 ^ 54" using b by simp
    then have "?x < of_int (2 ^ 54)" by (simp only: of_int_less_iff)
    then show ?thesis by simp
  qed
  have i: "ilog2 ?x \<le> 53"
  proof (rule ccontr)
    assume "\<not> ilog2 ?x \<le> 53"
    then have "(2 :: rat) powi 54 \<le> 2 powi ilog2 ?x"
      by (intro power_int_increasing) auto
    with ilog2_bounds [OF x] \<open>?x < 2 powi 54\<close> show False by linarith
  qed
  have lo: "0 \<le> ilog2 ?x"
  proof (rule ccontr)
    assume "\<not> 0 \<le> ilog2 ?x"
    then have "(2 :: rat) powi (ilog2 ?x + 1) \<le> 2 powi 0"
      by (intro power_int_increasing) auto
    with ilog2_bounds [OF x] have "?x < 1" by simp
    with n show False by simp
  qed
  have e: "exponent ?x = ilog2 ?x" using lo by (simp add: exponent_def)
  show ?thesis
  proof (cases "ilog2 ?x \<le> 52")
    case True
    let ?k = "nat (52 - ilog2 ?x)"
    have "(2 :: rat) powi (exponent ?x - 52) = 1 / 2 ^ ?k"
    proof -
      have "exponent ?x - 52 = - int ?k" using True e by simp
      then have "(2 :: rat) powi (exponent ?x - 52) = 2 powi (- int ?k)" by (simp only:)
      also have "\<dots> = 1 / 2 powi (int ?k)" by (rule power_int_minus_divide)
      also have "\<dots> = 1 / 2 ^ ?k" by (simp only: power_int_of_nat)
      finally show ?thesis .
    qed
    then have "?x = of_int (n * 2 ^ ?k) * 2 powi (exponent ?x - 52)" by simp
    then show ?thesis by (rule round_pos_grid)
  next
    case False
    with i have i53: "ilog2 ?x = 53" by linarith
    then have "(2 :: rat) powi 53 \<le> ?x" using ilog2_bounds [OF x] by simp
    then have "of_int (2 ^ 53) \<le> ?x" by simp
    then have "2 ^ 53 \<le> n" by (simp only: of_int_le_iff)
    with b have n53: "n = 2 ^ 53" by linarith
    have "?x = of_int (2 ^ 52) * 2 powi (exponent ?x - 52)"
      using e i53 n53 by simp
    then show ?thesis by (rule round_pos_grid)
  qed
qed

lemma number_value_int:
  assumes "\<bar>n\<bar> \<le> 2 ^ 53"
  shows "number_value (of_int n) = Num (of_int n)"
proof -
  have big: "(of_int m :: rat) < 2 powi 1024" if "m \<le> 2 ^ 53" for m :: int
  proof -
    from that have "m < 2 ^ 1024" by simp
    then have "(of_int m :: rat) < of_int (2 ^ 1024)" by (simp only: of_int_less_iff)
    then show ?thesis by simp
  qed
  consider "n = 0" | "0 < n" | "n < 0" by linarith
  then show ?thesis
  proof cases
    case 1
    then show ?thesis by (simp add: number_value_def)
  next
    case 2
    with assms have b: "n \<le> 2 ^ 53" by simp
    from round_pos_int [OF 2 b] big [OF b] 2 show ?thesis
      by (simp add: number_value_def)
  next
    case 3
    with assms have p: "0 < - n" and b: "- n \<le> 2 ^ 53" by simp_all
    from round_pos_int [OF p b] big [OF b] 3 show ?thesis
      by (simp add: number_value_def)
  qed
qed

lemma number_value_0 [simp]: "number_value 0 = Num 0"
  by (simp add: number_value_def)

lemma number_value_1 [simp]: "number_value 1 = Num 1"
  using number_value_int [of 1] by simp

lemma number_value_1000: "number_value 1000 = Num 1000"
  using number_value_int [of 1000] by simp

lemma number_value_defined [simp]: "number_value x \<noteq> NaN"
  by (simp add: number_value_def)


section \<open>One call of \<open>trackEvent\<close>\<close>

lemma storage_get_set [simp]:
  "storage_get k (storage_set k' r S) = (if k = k' then Some r else storage_get k S)"
  by (simp add: storage_get_def storage_set_def update_conv')

text \<open>A call that finds a record which is neither expired nor of another fingerprint
  hands it to the strategy and stores what the strategy returns.\<close>

lemma trackEvent_valid:
  assumes "storage_get (generateCompositeKey sha256 cat idt) S = Some r"
      and "\<not> now > expiresAt r"
      and "detailsHash r = generateDetailsHash sha256 dets"
  shows "trackEvent sha256 T now cat idt dets S =
           (case strategy_track T now (Some r) (generateCompositeKey sha256 cat idt) cat idt dets
                   (generateDetailsHash sha256 dets) of
              Inl e \<Rightarrow> Inl e
            | Inr (out, r') \<Rightarrow>
                Inr (Tracked out r', storage_set (generateCompositeKey sha256 cat idt) r' S,
                     [Emit_tracked r', Emit_outcome out r']))"
  using assms by (simp add: trackEvent_def Let_def)

text \<open>A call that finds no such record, below the key limit, hands the strategy no
  record at all.\<close>

lemma trackEvent_fresh:
  assumes "case storage_get (generateCompositeKey sha256 cat idt) S of
             None \<Rightarrow> True
           | Some r \<Rightarrow> now > expiresAt r \<or> detailsHash r \<noteq> generateDetailsHash sha256 dets"
      and "\<not> key_limit_reached T S"
  shows "trackEvent sha256 T now cat idt dets S =
           (case strategy_track T now None (generateCompositeKey sha256 cat idt) cat idt dets
                   (generateDetailsHash sha256 dets) of
              Inl e \<Rightarrow> Inl e
            | Inr (out, r') \<Rightarrow>
                Inr (Tracked out r', storage_set (generateCompositeKey sha256 cat idt) r' S,
                     [Emit_tracked r', Emit_outcome out r']))"
  using assms
  by (auto simp add: trackEvent_def Let_def key_limit_reached_def split: option.splits)

lemma trackEvent_rejected:
  assumes "case storage_get (generateCompositeKey sha256 cat idt) S of
             None \<Rightarrow> True
           | Some r \<Rightarrow> now > expiresAt r \<or> detailsHash r \<noteq> generateDetailsHash sha256 dets"
      and "key_limit_reached T S"
  shows "trackEvent sha256 T now cat idt dets S =
           Inr (KeyLimitReached, S, [Emit_key_limit_reached cat idt dets])"
  using assms
  by (auto simp add: trackEvent_def Let_def key_limit_reached_def split: option.splits)

section \<open>Runs under the counter strategy\<close>

lemma counter_track_existing:
  assumes "config_limit (config r) = Some L" and "count r = int n" and "0 < n"
      and "deferred r = (int n > L)"
      and "SimpleCounterStrategy_track T now (Some r) k cat idt dets h = (out, r')"
  shows "out = counter_outcome L n \<and> count r' = int (Suc n) \<and> deferred r' = (int (Suc n) > L)
         \<and> config r' = config r \<and> detailsHash r' = detailsHash r
         \<and> expiresAt r' = now + expireTime T \<and> key r' = key r"
  using assms
  by (auto simp add: SimpleCounterStrategy_track_def Let_def js_gt_def counter_outcome_def
      split: if_splits)

lemma counter_track_new:
  assumes "SimpleCounterStrategy_track T now None k cat idt dets h = (out, r')"
  shows "out = counter_outcome (limit T) 0 \<and> count r' = 1 \<and> deferred r' = (1 > limit T)
         \<and> config_limit (config r') = Some (limit T) \<and> detailsHash r' = h
         \<and> expiresAt r' = now + expireTime T \<and> key r' = k"
  using assms
  by (auto simp add: SimpleCounterStrategy_track_def Let_def js_gt_def counter_outcome_def
      split: if_splits)

lemma upt_shift: "[n..<n + Suc m] = n # [Suc n..<Suc n + m]"
  by (subst upt_rec) simp

lemma map_upt_shift:
  "map f [n..<n + length (x # xs)] = f n # map f [Suc n..<Suc n + length xs]"
proof -
  have "[n..<n + length (x # xs)] = n # [Suc n..<Suc n + length xs]"
    using upt_shift [of n "length xs"] by simp
  then show ?thesis by (simp only: list.map)
qed

text \<open>
  The run from a record that has folded \<open>n\<close> occurrences so far: the invariant is that the
  record is deferred exactly when its count has passed the limit of its own snapshot.
\<close>

lemma counter_run_existing:
  assumes cs: "strategy T = SimpleCounterStrategy"
  shows "storage_get (generateCompositeKey sha256 cat idt) S = Some r
     \<Longrightarrow> detailsHash r = generateDetailsHash sha256 dets
     \<Longrightarrow> config_limit (config r) = Some L
     \<Longrightarrow> count r = int n \<Longrightarrow> 0 < n \<Longrightarrow> deferred r = (int n > L)
     \<Longrightarrow> (case nows of [] \<Rightarrow> True | t # ts \<Rightarrow> t \<le> expiresAt r)
     \<Longrightarrow> no_expiry (expireTime T) nows
     \<Longrightarrow> \<exists>rs S'. trackEvents sha256 T cat idt dets nows S = Inr (rs, S')
            \<and> map result_type rs = map (counter_outcome L) [n..<n + length nows]
            \<and> map (map_option count \<circ> result_data) rs
                = map (Some \<circ> int) [Suc n..<Suc n + length nows]"
proof (induction nows arbitrary: S r n)
  case Nil
  then show ?case by simp
next
  case (Cons now nows)
  let ?k = "generateCompositeKey sha256 cat idt"
  let ?h = "generateDetailsHash sha256 dets"
  obtain out r' where
    tr: "SimpleCounterStrategy_track T now (Some r) ?k cat idt dets ?h = (out, r')"
    by (cases "SimpleCounterStrategy_track T now (Some r) ?k cat idt dets ?h")
  have valid: "\<not> now > expiresAt r" using Cons.prems(7) by simp
  have step: "trackEvent sha256 T now cat idt dets S =
      Inr (Tracked out r', storage_set ?k r' S, [Emit_tracked r', Emit_outcome out r'])"
    using trackEvent_valid [OF Cons.prems(1) valid Cons.prems(2), of T] tr cs
    by (simp add: strategy_track_def)
  note props =
    counter_track_existing [OF Cons.prems(3) Cons.prems(4) Cons.prems(5) Cons.prems(6) tr]
  have next_ok: "case nows of [] \<Rightarrow> True | t # ts \<Rightarrow> t \<le> expiresAt r'"
    using Cons.prems(8) props by (cases nows) simp_all
  have ne: "no_expiry (expireTime T) nows"
    using Cons.prems(8) by (cases nows) simp_all
  have g: "storage_get ?k (storage_set ?k r' S) = Some r'" by simp
  have h': "detailsHash r' = ?h" using props Cons.prems(2) by simp
  have l': "config_limit (config r') = Some L" using props Cons.prems(3) by simp
  have c': "count r' = int (Suc n)" using props by simp
  have d': "deferred r' = (int (Suc n) > L)" using props by simp
  have "\<exists>rs S'. trackEvents sha256 T cat idt dets nows (storage_set ?k r' S) = Inr (rs, S')
            \<and> map result_type rs = map (counter_outcome L) [Suc n..<Suc n + length nows]
            \<and> map (map_option count \<circ> result_data) rs
                = map (Some \<circ> int) [Suc (Suc n)..<Suc (Suc n) + length nows]"
    by (rule Cons.IH [OF g h' l' c' _ d' next_ok ne]) simp
  then obtain rs S' where
    rest: "trackEvents sha256 T cat idt dets nows (storage_set ?k r' S) = Inr (rs, S')"
      "map result_type rs = map (counter_outcome L) [Suc n..<Suc n + length nows]"
      "map (map_option count \<circ> result_data) rs
         = map (Some \<circ> int) [Suc (Suc n)..<Suc (Suc n) + length nows]"
    by blast
  have "trackEvents sha256 T cat idt dets (now # nows) S = Inr (Tracked out r' # rs, S')"
    using step rest(1) by simp
  moreover have "map result_type (Tracked out r' # rs)
       = map (counter_outcome L) [n..<n + length (now # nows)]"
    unfolding map_upt_shift using rest(2) props by simp
  moreover have "map (map_option count \<circ> result_data) (Tracked out r' # rs)
       = map (Some \<circ> int) [Suc n..<Suc n + length (now # nows)]"
    unfolding map_upt_shift using rest(3) props by simp
  ultimately show ?case by blast
qed

text \<open>The run from a key the store does not hold, below the key limit.\<close>

lemma counter_run_absent:
  assumes cs: "strategy T = SimpleCounterStrategy"
      and absent: "storage_get (generateCompositeKey sha256 cat idt) S = None"
      and room: "\<not> key_limit_reached T S"
      and ne: "no_expiry (expireTime T) nows"
  shows "\<exists>rs S'. trackEvents sha256 T cat idt dets nows S = Inr (rs, S')
            \<and> map result_type rs = map (counter_outcome (limit T)) [0..<length nows]
            \<and> map (map_option count \<circ> result_data) rs = map (Some \<circ> int) [1..<Suc (length nows)]"
proof (cases nows)
  case Nil
  then show ?thesis by simp
next
  case (Cons now rest)
  let ?k = "generateCompositeKey sha256 cat idt"
  let ?h = "generateDetailsHash sha256 dets"
  obtain out r' where tr: "SimpleCounterStrategy_track T now None ?k cat idt dets ?h = (out, r')"
    by (cases "SimpleCounterStrategy_track T now None ?k cat idt dets ?h")
  note props = counter_track_new [OF tr]
  have step: "trackEvent sha256 T now cat idt dets S =
      Inr (Tracked out r', storage_set ?k r' S, [Emit_tracked r', Emit_outcome out r'])"
  proof -
    have nv: "case storage_get ?k S of
                None \<Rightarrow> True
              | Some r \<Rightarrow> now > expiresAt r \<or> detailsHash r \<noteq> ?h"
      using absent by simp
    show ?thesis
      using trackEvent_fresh [OF nv room] tr cs by (simp add: strategy_track_def)
  qed
  have g: "storage_get ?k (storage_set ?k r' S) = Some r'" by simp
  have h': "detailsHash r' = ?h" using props by simp
  have l': "config_limit (config r') = Some (limit T)" using props by simp
  have c': "count r' = int (Suc 0)" using props by simp
  have d': "deferred r' = (int (Suc 0) > limit T)" using props by simp
  have next_ok: "case rest of [] \<Rightarrow> True | t # ts \<Rightarrow> t \<le> expiresAt r'"
    using ne Cons props by (cases rest) simp_all
  have ne': "no_expiry (expireTime T) rest"
    using ne Cons by (cases rest) simp_all
  obtain rs S' where
    run: "trackEvents sha256 T cat idt dets rest (storage_set ?k r' S) = Inr (rs, S')"
      "map result_type rs = map (counter_outcome (limit T)) [Suc 0..<Suc 0 + length rest]"
      "map (map_option count \<circ> result_data) rs
         = map (Some \<circ> int) [Suc (Suc 0)..<Suc (Suc 0) + length rest]"
    using counter_run_existing [OF cs g h' l' c' _ d' next_ok ne'] by auto
  have "trackEvents sha256 T cat idt dets nows S = Inr (Tracked out r' # rs, S')"
    using step run(1) Cons by simp
  moreover have "map result_type (Tracked out r' # rs)
       = map (counter_outcome (limit T)) [0..<0 + length (now # rest)]"
    unfolding map_upt_shift using run(2) props by simp
  moreover have "map (map_option count \<circ> result_data) (Tracked out r' # rs)
       = map (Some \<circ> int) [Suc 0..<Suc 0 + length (now # rest)]"
    unfolding map_upt_shift using run(3) props by simp
  ultimately show ?thesis using Cons by auto
qed

lemma counter_outcome_list:
  "map (counter_outcome L) [0..<n]
     = take n (replicate (nat L) Immediate @ Deferred # replicate n Ignored)"
  by (rule nth_equalityI)
     (auto simp add: counter_outcome_def nth_append nth_Cons split: nat.splits)


text \<open>
  Once the record exists, the limit that decides is the one of its own snapshot: the
  limit of the tracker no longer enters.
\<close>

lemma counter_limit_frozen:
  assumes "strategy T = SimpleCounterStrategy"
      and "storage_get (generateCompositeKey sha256 cat idt) S = Some r"
      and "\<not> now > expiresAt r"
      and "detailsHash r = generateDetailsHash sha256 dets"
  shows "trackEvent sha256 (T\<lparr>limit := x\<rparr>) now cat idt dets S
           = trackEvent sha256 T now cat idt dets S"
  using assms(1)
  by (simp add: trackEvent_valid [OF assms(2-4)] strategy_track_def
      SimpleCounterStrategy_track_def)

lemma trackEvent_tracked:
  assumes "trackEvent sha256 T now cat idt dets S = Inr (Tracked out r', S', em)"
  shows "\<exists>rcd. strategy_track T now rcd (generateCompositeKey sha256 cat idt) cat idt dets
                     (generateDetailsHash sha256 dets) = Inr (out, r')
           \<and> (rcd = None \<or> rcd = storage_get (generateCompositeKey sha256 cat idt) S)
           \<and> S' = storage_set (generateCompositeKey sha256 cat idt) r' S
           \<and> em = [Emit_tracked r', Emit_outcome out r']"
  using assms
  by (auto simp add: trackEvent_def Let_def split: if_splits sum.splits)


lemma strategy_track_maxKeys:
  "strategy_track (T\<lparr>maxKeys := m\<rparr>) now rcd k cat idt dets h
     = strategy_track T now rcd k cat idt dets h"
  by (cases rcd; cases "strategy T")
     (simp_all add: strategy_track_def SimpleCounterStrategy_track_def
        TokenBucketStrategy_track_def Let_def split: option.splits)

text \<open>The two records of the examples are states the tracker reaches.\<close>

lemma counter_record_reached:
  "\<exists>rs. trackEvents sha256 default_tracker ''api_error'' ''db'' None
           [0, 0, 0, 0, 0, 0, 0, 0, 0] []
         = Inr (rs, [(generateCompositeKey sha256 ''api_error'' ''db'',
                      counter_record (generateCompositeKey sha256 ''api_error'' ''db''))])"
  by (simp add: trackEvent_def Let_def strategy_track_def SimpleCounterStrategy_track_def
      default_tracker_def DEFAULT_LIMIT_def DEFAULT_DEFER_INTERVAL_MS_def
      DEFAULT_EXPIRE_TIME_MS_def js_gt_def js_add_def storage_get_def storage_set_def
      storage_size_def counter_record_def generateDetailsHash_def)

lemma bucket_record_reached:
  "\<exists>rs. trackEvents sha256 (default_tracker\<lparr>strategy := TokenBucketStrategy 1 1\<rparr>)
           ''api_error'' ''db'' None [0, 0] []
         = Inr (rs, [(generateCompositeKey sha256 ''api_error'' ''db'',
                      bucket_record (generateCompositeKey sha256 ''api_error'' ''db''))])"
  by (simp add: trackEvent_def Let_def strategy_track_def TokenBucketStrategy_track_def
      default_tracker_def DEFAULT_DEFER_INTERVAL_MS_def DEFAULT_EXPIRE_TIME_MS_def
      storage_get_def storage_set_def storage_size_def bucket_record_def
      generateDetailsHash_def currentTokens_def tokensToAdd_def ToNumber_def
      number_value_1000)

section \<open>A run of seven calls under limit five\<close>

lemma upt_1_8: "[1..<Suc 7] = [1, 2, 3, 4, 5, 6, 7]"
  by (simp add: upt_rec)

lemma upt_0_7: "[0..<7] = [0, 1, 2, 3, 4, 5, 6]"
  by (simp add: upt_rec)

lemma counter_limit5_run:
  assumes "strategy T = SimpleCounterStrategy" and "limit T = 5"
      and "storage_get (generateCompositeKey sha256 cat idt) S = None"
      and "\<not> key_limit_reached T S"
      and "length nows = 7"
      and "no_expiry (expireTime T) nows"
  shows "outcomes_of (trackEvents sha256 T cat idt dets nows S)
           = [Immediate, Immediate, Immediate, Immediate, Immediate, Deferred, Ignored]
         \<and> counts_of (trackEvents sha256 T cat idt dets nows S)
           = [Some 1, Some 2, Some 3, Some 4, Some 5, Some 6, Some 7]"
proof -
  obtain rs S' where run: "trackEvents sha256 T cat idt dets nows S = Inr (rs, S')"
      "map result_type rs = map (counter_outcome (limit T)) [0..<length nows]"
      "map (map_option count \<circ> result_data) rs = map (Some \<circ> int) [1..<Suc (length nows)]"
    using counter_run_absent [OF assms(1) assms(3) assms(4) assms(6), of dets] by blast
  have "map (counter_outcome 5) [0..<7]
      = [Immediate, Immediate, Immediate, Immediate, Immediate, Deferred, Ignored]"
    unfolding upt_0_7 by (simp add: counter_outcome_def)
  moreover have "map (Some \<circ> int) [1..<Suc 7] = [Some 1, Some 2, Some 3, Some 4, Some 5, Some 6, Some 7]"
    unfolding upt_1_8 by simp
  ultimately show ?thesis
    using run assms(2) assms(5) by (simp add: outcomes_of_def counts_of_def)
qed

section \<open>Records the strategies create\<close>

lemma strategy_track_new:
  "\<exists>out r'. strategy_track T now None k cat idt dets h = Inr (out, r')
      \<and> key r' = k \<and> category r' = cat \<and> ident r' = idt \<and> details r' = dets \<and> detailsHash r' = h
      \<and> count r' = 1 \<and> lastEventTime r' = now \<and> expiresAt r' = now + expireTime T
      \<and> config r' = snapshot T
      \<and> deferred r' = (strategy T = SimpleCounterStrategy \<and> limit T < 1)
      \<and> out = (if strategy T = SimpleCounterStrategy \<and> limit T < 1 then Deferred else Immediate)
      \<and> strategyData r' =
           (case strategy T of
              SimpleCounterStrategy \<Rightarrow> None
            | TokenBucketStrategy bSize rRate \<Rightarrow> Some \<lparr> tokens = bSize - 1, lastRefill = now \<rparr>)"
  by (cases "strategy T")
     (simp_all add: strategy_track_def SimpleCounterStrategy_track_def
        TokenBucketStrategy_track_def Let_def js_gt_def snapshot_def)

lemma key_limit_delete:
  "\<not> key_limit_reached T S \<Longrightarrow> \<not> key_limit_reached T (storage_delete k S)"
proof -
  have "length (AList.delete k S) \<le> length S"
    by (simp add: AList.delete_eq)
  then show "\<not> key_limit_reached T S \<Longrightarrow> \<not> key_limit_reached T (storage_delete k S)"
    by (auto simp add: key_limit_reached_def storage_size_def storage_delete_def)
qed

lemma storage_get_delete [simp]:
  "storage_get k (storage_delete k' S) = (if k = k' then None else storage_get k S)"
  by (simp add: storage_get_def storage_delete_def delete_conv')


section \<open>The token bucket\<close>

lemma tokensToAdd_no_elapsed:
  assumes "lastRefill sd = now"
  shows "\<not> Number_lessThan (Num 0) (tokensToAdd now sd cfg)"
  using assms
  by (cases "ToNumber (config_refillRate cfg)") (simp_all add: tokensToAdd_def)

lemma currentTokens_no_elapsed:
  assumes "lastRefill sd = now"
  shows "currentTokens now sd cfg = Some (tokens sd)"
  using tokensToAdd_no_elapsed [OF assms] by (simp add: currentTokens_def)

lemma no_token_no_elapsed:
  assumes "lastRefill sd = now"
  shows "no_token now sd cfg = (tokens sd < 1)"
  using currentTokens_no_elapsed [OF assms] by (simp add: no_token_def)

lemma retry_at_rate_1:
  assumes "config_refillRate cfg = Some 1"
  shows "retry_at now cfg = number_value (of_int now + 1000)"
  using assms by (simp add: retry_at_def ToNumber_def number_value_1000)

lemma token_bucket_track_immediate:
  assumes "TokenBucketStrategy_track bSize rRate T now record k cat idt dets h = Inr (Immediate, r')"
  shows "\<not> deferred r' \<and> scheduledSendAt r' = None"
  using assms
  by (auto simp add: TokenBucketStrategy_track_def Let_def split: option.splits if_splits)

lemma token_bucket_track_outcome:
  assumes "TokenBucketStrategy_track bSize rRate T now rcd k cat idt dets h = Inr (out, r')"
  shows "out \<noteq> Ignored"
  using assms
  by (cases rcd) (auto simp add: TokenBucketStrategy_track_def Let_def split: option.splits if_splits)

lemma token_bucket_track_deferred:
  assumes "TokenBucketStrategy_track bSize rRate T now rcd k cat idt dets h = Inr (Deferred, r')"
  shows "\<exists>r. rcd = Some r \<and> config r' = config r \<and> deferred r'
           \<and> scheduledSendAt r' = Some (retry_at now (config r))
           \<and> count r' = count r \<and> expiresAt r' = expiresAt r \<and> detailsHash r' = detailsHash r"
  using assms
  by (cases rcd)
     (auto simp add: TokenBucketStrategy_track_def Let_def retry_at_def split: option.splits if_splits)

lemma token_bucket_track_no_token:
  assumes "strategyData r = Some sd" and "no_token now sd (config r)"
  shows "TokenBucketStrategy_track bSize rRate T now (Some r) k cat idt dets h
           = Inr (Deferred,
                  r\<lparr> strategyData :=
                       Some (if Number_lessThan (Num 0) (tokensToAdd now sd (config r))
                             then sd\<lparr> lastRefill := now \<rparr> else sd),
                     deferred := True,
                     scheduledSendAt := Some (retry_at now (config r)) \<rparr>)"
  using assms
  by (auto simp add: TokenBucketStrategy_track_def Let_def retry_at_def no_token_def
        split: option.splits)

lemma token_bucket_track_token:
  assumes "strategyData r = Some sd" and "\<not> no_token now sd (config r)"
  shows "\<exists>r'. TokenBucketStrategy_track bSize rRate T now (Some r) k cat idt dets h
                 = Inr (Immediate, r')"
  using assms
  by (auto simp add: TokenBucketStrategy_track_def Let_def no_token_def split: option.splits)

lemma counter_track_deferred_record:
  assumes "deferred r"
  shows "SimpleCounterStrategy_track T now (Some r) k cat idt dets h
           = (Ignored, r\<lparr> count := count r + 1, lastEventTime := now, expiresAt := now + expireTime T \<rparr>)"
  using assms by (simp add: SimpleCounterStrategy_track_def Let_def)

lemma token_bucket_scenario:
  assumes tb: "strategy T = TokenBucketStrategy 5 1"
      and absent: "storage_get (generateCompositeKey sha256 cat idt) S = None"
      and room: "\<not> key_limit_reached T S"
      and ne: "0 \<le> expireTime T"
  shows "\<exists>rs S'. trackEvents sha256 T cat idt dets [t, t, t, t, t, t, t] S = Inr (rs, S')
           \<and> map result_type rs
               = [Immediate, Immediate, Immediate, Immediate, Immediate, Deferred, Deferred]
           \<and> map (map_option scheduledSendAt \<circ> result_data) rs
               = [Some None, Some None, Some None, Some None, Some None,
                  Some (Some (number_value (of_int t + 1000))),
                  Some (Some (number_value (of_int t + 1000)))]"
  using assms
  by (simp add: trackEvent_def Let_def strategy_track_def TokenBucketStrategy_track_def
        key_limit_reached_def currentTokens_no_elapsed tokensToAdd_no_elapsed
        ToNumber_def number_value_1000)

lemma Number_add_mono:
  assumes "a \<le> b" and "c \<noteq> NaN"
  shows "js_le (Number_add (Num a) c) (Number_add (Num b) c)"
proof (cases c)
  case (Num x)
  from assms(1) have "a + x \<le> b + x" by simp
  then show ?thesis using Num by (simp add: number_value_mono)
qed (use assms in simp_all)

lemma milliseconds_per_token_defined:
  "Number_multiply (Number_divide (Num 1) (ToNumber (Some rate))) (Num 1000) \<noteq> NaN"
proof -
  have d: "Number_divide (Num 1) (ToNumber (Some rate)) \<noteq> NaN"
    by (cases "number_value rate") (simp_all add: ToNumber_def)
  show ?thesis
    using d by (cases "Number_divide (Num 1) (ToNumber (Some rate))") simp_all
qed

lemma retry_at_mono:
  assumes "config_refillRate cfg = Some rate" and "nowA \<le> nowB"
  shows "js_le (retry_at nowA cfg) (retry_at nowB cfg)"
proof -
  have "(of_int nowA :: rat) \<le> of_int nowB" using assms(2) by simp
  from Number_add_mono [OF this milliseconds_per_token_defined [of rate]] assms(1)
  show ?thesis by (simp add: retry_at_def)
qed

lemma suppressed_schedule:
  assumes tb: "strategy T = TokenBucketStrategy bSize rRate"
      and one: "trackEvent sha256 T nowA cat idt dets S = Inr (Tracked Deferred rA, SA, emA)"
      and two: "trackEvent sha256 T nowB cat idt dets SA = Inr (Tracked Deferred rB, SB, emB)"
  shows "scheduledSendAt rA = Some (retry_at nowA (config rA))
       \<and> scheduledSendAt rB = Some (retry_at nowB (config rA))
       \<and> config rB = config rA"
proof -
  let ?k = "generateCompositeKey sha256 cat idt"
  let ?h = "generateDetailsHash sha256 dets"
  obtain rcd1 where t1: "strategy_track T nowA rcd1 ?k cat idt dets ?h = Inr (Deferred, rA)"
    and s1: "SA = storage_set ?k rA S"
    using trackEvent_tracked [OF one] by blast
  obtain rcd2 where t2: "strategy_track T nowB rcd2 ?k cat idt dets ?h = Inr (Deferred, rB)"
    and c2: "rcd2 = None \<or> rcd2 = storage_get ?k SA"
    using trackEvent_tracked [OF two] by blast
  from t1 tb have b1: "TokenBucketStrategy_track bSize rRate T nowA rcd1 ?k cat idt dets ?h
      = Inr (Deferred, rA)" by (simp add: strategy_track_def)
  from t2 tb have b2: "TokenBucketStrategy_track bSize rRate T nowB rcd2 ?k cat idt dets ?h
      = Inr (Deferred, rB)" by (simp add: strategy_track_def)
  obtain r0 where p1: "rcd1 = Some r0" "config rA = config r0"
      "scheduledSendAt rA = Some (retry_at nowA (config r0))"
    using token_bucket_track_deferred [OF b1] by blast
  obtain r where p2: "rcd2 = Some r" "config rB = config r"
      "scheduledSendAt rB = Some (retry_at nowB (config r))"
    using token_bucket_track_deferred [OF b2] by blast
  from p2(1) c2 s1 have "r = rA" by simp
  with p1 p2 show ?thesis by simp
qed

text \<open>
  Four checks of the arithmetic. At rate 3 the retry is scheduled \<open>333.3333333333333\<close>
  milliseconds ahead, the double \<open>5864062014805333 / 2^44\<close>, not the third of a second. At
  rate 100, after 290 milliseconds, \<open>0.29 * 100\<close> is just below 29 in doubles and 28 tokens
  come back. At rate \<open>1 / 3\<close>, after three seconds, \<open>3 * (1 / 3)\<close> is 1 in doubles and
  one token comes back. A bucket of size 0 has no token whatever time has passed.
\<close>

lemma retry_at_rate_3:
  "retry_at 0 \<lparr> config_limit = None, config_deferInterval = None,
                config_bucketSize = Some 5, config_refillRate = Some 3 \<rparr>
     = Num (5864062014805333 / 17592186044416)"
  by code_simp

lemma currentTokens_rate_third:
  "currentTokens 3000 \<lparr> tokens = 0, lastRefill = 0 \<rparr>
     \<lparr> config_limit = None, config_deferInterval = None,
       config_bucketSize = Some 1, config_refillRate = Some (1 / 3) \<rparr> = Some 1"
  by code_simp

lemma no_token_size_0:
  "no_token 5000 \<lparr> tokens = - 1, lastRefill = 0 \<rparr>
     \<lparr> config_limit = None, config_deferInterval = None,
       config_bucketSize = Some 0, config_refillRate = Some 1 \<rparr>"
  by code_simp

lemma tokensToAdd_rate_100:
  "tokensToAdd 290 \<lparr> tokens = 0, lastRefill = 0 \<rparr>
     \<lparr> config_limit = None, config_deferInterval = None,
       config_bucketSize = Some 100, config_refillRate = Some 100 \<rparr> = Num 28"
  by code_simp

section \<open>Draining\<close>

lemma fold_delete_filter:
  "fold (\<lambda>event. storage_delete (key event)) es S = filter (\<lambda>(k, r). k \<notin> key ` set es) S"
proof (induction es arbitrary: S)
  case Nil
  then show ?case by simp
next
  case (Cons e es)
  have "filter (\<lambda>(k, r). k \<notin> key ` set es) (storage_delete (key e) S)
      = filter (\<lambda>(k, r). k \<notin> key ` set (e # es)) S"
    by (induction S) (auto simp add: storage_delete_def)
  with Cons show ?case by simp
qed

lemma drained_none_due:
  assumes k: "keyed S"
      and sub: "set (findDueDeferred now' S) \<subseteq> set (findDueDeferred now S)"
  shows "findDueDeferred now' (fst (snd (processDeferredEvents now S))) = []"
proof -
  let ?due = "findDueDeferred now S"
  have S1: "fst (snd (processDeferredEvents now S)) = filter (\<lambda>(k, r). k \<notin> key ` set ?due) S"
    by (simp add: processDeferredEvents_def Let_def fold_delete_filter)
  have "findDueDeferred now' (filter (\<lambda>(k, r). k \<notin> key ` set ?due) S) = []"
  proof (rule ccontr)
    assume "findDueDeferred now' (filter (\<lambda>(k, r). k \<notin> key ` set ?due) S) \<noteq> []"
    then obtain r where
      "r \<in> set (findDueDeferred now' (filter (\<lambda>(k, r). k \<notin> key ` set ?due) S))"
      by (cases "findDueDeferred now' (filter (\<lambda>(k, r). k \<notin> key ` set ?due) S)") auto
    then obtain k' where in_S: "(k', r) \<in> set S" and notdel: "k' \<notin> key ` set ?due"
      and due': "deferred r \<and> due_at now' (scheduledSendAt r)"
      by (auto simp add: findDueDeferred_def)
    from in_S due' have "r \<in> set (findDueDeferred now' S)"
      by (force simp add: findDueDeferred_def)
    with sub have "r \<in> set ?due" by blast
    moreover from k in_S have "key r = k'"
      by (auto simp add: keyed_def list_all_iff)
    ultimately show False using notdel by blast
  qed
  with S1 show ?thesis by simp
qed


text \<open>Every operation keeps each record under its own key.\<close>

lemma keyed_empty: "keyed []"
  by (simp add: keyed_def)

lemma keyed_set: "keyed S \<Longrightarrow> key r = k \<Longrightarrow> keyed (storage_set k r S)"
  by (induction S) (auto simp add: keyed_def storage_set_def)

lemma keyed_delete: "keyed S \<Longrightarrow> keyed (storage_delete k S)"
  by (induction S) (auto simp add: keyed_def storage_delete_def)

lemma keyed_get: "keyed S \<Longrightarrow> storage_get k S = Some r \<Longrightarrow> key r = k"
  by (auto simp add: keyed_def storage_get_def list_all_iff dest: map_of_SomeD)

lemma strategy_track_key:
  assumes "strategy_track T now rcd k cat idt dets h = Inr (out, r')"
      and "case rcd of None \<Rightarrow> True | Some r \<Rightarrow> key r = k"
  shows "key r' = k"
  using assms
  by (cases rcd; cases "strategy T")
     (auto simp add: strategy_track_def SimpleCounterStrategy_track_def
        TokenBucketStrategy_track_def Let_def split: option.splits if_splits)

lemma keyed_trackEvent:
  assumes "keyed S" and "trackEvent sha256 T now cat idt dets S = Inr (res, S', em)"
  shows "keyed S'"
proof (cases res)
  case KeyLimitReached
  with assms show ?thesis
    by (auto simp add: trackEvent_def Let_def split: if_splits sum.splits)
next
  case (Tracked out r')
  let ?k = "generateCompositeKey sha256 cat idt"
  from assms(2) Tracked obtain rcd where
    tr: "strategy_track T now rcd ?k cat idt dets (generateDetailsHash sha256 dets) = Inr (out, r')"
    and c: "rcd = None \<or> rcd = storage_get ?k S" and s: "S' = storage_set ?k r' S"
    using trackEvent_tracked by blast
  have "case rcd of None \<Rightarrow> True | Some r \<Rightarrow> key r = ?k"
    using c keyed_get [OF assms(1)] by (auto split: option.splits)
  from strategy_track_key [OF tr this] s assms(1) show ?thesis by (simp add: keyed_set)
qed

lemma keyed_updateConfig:
  assumes "keyed S"
  shows "keyed (fst (snd (updateConfig sha256 cat idt newConfig S)))"
  using assms keyed_get [OF assms]
  by (auto simp add: updateConfig_def Let_def keyed_set split: option.splits)

lemma keyed_processDeferredEvents:
  assumes "keyed S"
  shows "keyed (fst (snd (processDeferredEvents now S)))"
  using assms
  by (auto simp add: processDeferredEvents_def Let_def fold_delete_filter keyed_def list_all_iff)

lemma keyed_purgeExpired: "keyed S \<Longrightarrow> keyed (purgeExpired now S)"
  by (auto simp add: purgeExpired_def keyed_def list_all_iff)

text \<open>
  The list has one entry for each key, as a \<open>Map\<close> has, so that its length is the
  \<open>size\<close> of the \<open>Map\<close>: the writes keep it so.
\<close>

lemma distinct_storage_set:
  "distinct (map fst S) \<Longrightarrow> distinct (map fst (storage_set k r S))"
  by (simp add: storage_set_def distinct_update)

lemma distinct_storage_delete:
  "distinct (map fst S) \<Longrightarrow> distinct (map fst (storage_delete k S))"
  by (simp add: storage_delete_def distinct_delete)

lemma distinct_processDeferredEvents:
  "distinct (map fst S) \<Longrightarrow> distinct (map fst (fst (snd (processDeferredEvents now S))))"
  by (simp add: processDeferredEvents_def Let_def fold_delete_filter distinct_map_filter)

lemma distinct_purgeExpired:
  "distinct (map fst S) \<Longrightarrow> distinct (map fst (purgeExpired now S))"
  by (simp add: purgeExpired_def distinct_map_filter)

section \<open>Configuration updates and fingerprints\<close>

lemma storage_size_set:
  "storage_size (storage_set k r S)
     = (if k \<in> fst ` set S then storage_size S else storage_size S + 1)"
  by (induction S) (auto simp add: storage_size_def storage_set_def)


text \<open>
  Two checks of the serialisation. \<open>JSON.stringify({b: -12, a: [true, null, {b: 100, c: 3}]},
  ['a', 'b'])\<close> prints the members in the order of the array and drops the nested \<open>c\<close>.
  The fingerprint does not depend on the order in which the payload lists its keys.
\<close>

lemma stringify_example:
  "JSON_stringify
     (JObj [(''b'', JNum (- 12)),
            (''a'', JArr [JBool True, JNull, JObj [(''b'', JNum 100), (''c'', JNum 3)]])])
     (sort (Object_keys
        (JObj [(''b'', JNum (- 12)),
               (''a'', JArr [JBool True, JNull, JObj [(''b'', JNum 100), (''c'', JNum 3)]])])))
   = ''{'' @ [CHR 0x22] @ ''a'' @ [CHR 0x22] @ '':[true,null,{'' @ [CHR 0x22] @ ''b''
       @ [CHR 0x22] @ '':100}],'' @ [CHR 0x22] @ ''b'' @ [CHR 0x22] @ '':-12}''"
  by code_simp

lemma fingerprint_key_order:
  "generateDetailsHash sha256
      (Some (JObj [(''host'', JStr ''db-1''), (''code'', JStr ''E_CONN'')]))
     = generateDetailsHash sha256
         (Some (JObj [(''code'', JStr ''E_CONN''), (''host'', JStr ''db-1'')]))"
proof -
  have "sort [''host'', ''code''] = [''code'', ''host'']" by code_simp
  moreover have "sort [''code'', ''host''] = [''code'', ''host'']" by code_simp
  ultimately show ?thesis
    by (simp add: generateDetailsHash_def Let_def JSON_stringify_def PropertyList_def)
qed

lemma nested_object_filtered:
  assumes "P \<notin> fst ` set kvs" and "P \<noteq> ''__proto__''"
  shows "JSON_stringify (JObj [(P, JObj kvs)]) (sort (Object_keys (JObj [(P, JObj kvs)])))
           = ''{'' @ quote P @ '':{}}''"
proof -
  have "map_of (map (\<lambda>(Q, v). (Q, quote Q @ '':'' @ SerializeJSONProperty [P] v)) kvs) P = None"
    using assms by (induction kvs) auto
  then show ?thesis
    using assms(2) by (simp add: JSON_stringify_def PropertyList_def)
qed

lemma fingerprint_blind_to_nested:
  assumes "P \<notin> fst ` set kvs1" and "P \<notin> fst ` set kvs2" and "P \<noteq> ''__proto__''"
  shows "generateDetailsHash sha256 (Some (JObj [(P, JObj kvs1)]))
           = generateDetailsHash sha256 (Some (JObj [(P, JObj kvs2)]))"
  using nested_object_filtered [OF assms(1) assms(3)] nested_object_filtered [OF assms(2) assms(3)]
  by (simp add: generateDetailsHash_def Let_def)


section \<open>The claims\<close>

text \<open>
  C1, as the code has it. Under the counter strategy, a run of \<open>trackEvent\<close> calls with the same category,
  identifier and details, from a key the store does not hold, with no call finding the
  record expired and nothing draining it in between, returns \<open>immediate\<close> for the first
  \<open>L\<close> calls, \<open>deferred\<close> for call \<open>L + 1\<close> and \<open>ignored\<close> for every call after it, where
  \<open>L\<close> is the limit of the tracker when the record is created, provided the key limit
  lets the run in: \<open>maxKeys\<close> is not positive, or the store holds fewer than \<open>maxKeys\<close>
  records at the first call. A limit below zero behaves as limit zero.
\<close>

theorem counter_run_outcomes:
  assumes "strategy T = SimpleCounterStrategy"
      and "storage_get (generateCompositeKey sha256 cat idt) S = None"
      and "\<not> key_limit_reached T S"
      and "no_expiry (expireTime T) nows"
  shows "\<exists>rs S'. trackEvents sha256 T cat idt dets nows S = Inr (rs, S')
            \<and> map result_type rs
                = take (length nows)
                    (replicate (nat (limit T)) Immediate @ Deferred
                       # replicate (length nows) Ignored)"
  using counter_run_absent [OF assms, of dets] counter_outcome_list [of "limit T" "length nows"]
  by auto

theorem counter_run_outcomes_witness:
  "\<forall>sha256.
     strategy (default_tracker\<lparr>limit := 2, maxKeys := 3\<rparr>) = SimpleCounterStrategy
     \<and> storage_get (generateCompositeKey sha256 ''api_error'' ''db'') [] = None
     \<and> \<not> key_limit_reached (default_tracker\<lparr>limit := 2, maxKeys := 3\<rparr>) []
     \<and> no_expiry (expireTime (default_tracker\<lparr>limit := 2, maxKeys := 3\<rparr>)) [0, 10, 20, 30]
     \<and> (\<exists>rs S'. trackEvents sha256 (default_tracker\<lparr>limit := 2, maxKeys := 3\<rparr>)
                    ''api_error'' ''db'' None [0, 10, 20, 30] [] = Inr (rs, S')
            \<and> map result_type rs = [Immediate, Immediate, Deferred, Ignored])"
proof
  fix sha256 :: "string \<Rightarrow> string"
  let ?T = "default_tracker\<lparr>limit := 2, maxKeys := 3\<rparr>"
  have a: "strategy ?T = SimpleCounterStrategy" by (simp add: default_tracker_def)
  have b: "storage_get (generateCompositeKey sha256 ''api_error'' ''db'') [] = None"
    by (simp add: storage_get_def)
  have c: "\<not> key_limit_reached ?T []"
    by (simp add: key_limit_reached_def storage_size_def)
  have d: "no_expiry (expireTime ?T) [0, 10, 20, 30]"
    by (simp add: default_tracker_def DEFAULT_EXPIRE_TIME_MS_def)
  have e: "take (length [0::int, 10, 20, 30])
             (replicate (nat (limit ?T)) Immediate @ Deferred # replicate (length [0::int, 10, 20, 30]) Ignored)
           = [Immediate, Immediate, Deferred, Ignored]"
    by (simp add: numeral_eq_Suc)
  show "strategy ?T = SimpleCounterStrategy
     \<and> storage_get (generateCompositeKey sha256 ''api_error'' ''db'') [] = None
     \<and> \<not> key_limit_reached ?T []
     \<and> no_expiry (expireTime ?T) [0, 10, 20, 30]
     \<and> (\<exists>rs S'. trackEvents sha256 ?T ''api_error'' ''db'' None [0, 10, 20, 30] [] = Inr (rs, S')
            \<and> map result_type rs = [Immediate, Immediate, Deferred, Ignored])"
    using a b c d counter_run_outcomes [OF a b c d, of None] unfolding e by blast
qed

text \<open>
  Where C1 as stated fails: the claim does not ask that the key limit lets the run in. A
  tracker that is the default one but for \<open>maxKeys = 1\<close> has a store that holds one
  record, under another key (the key of the call with one more character, so that it is
  another key whatever the hash function). Three calls for the key the store does not hold,
  with no expiry, are each answered \<open>ignored\<close> with reason \<open>key_limit_reached\<close>, not
  \<open>immediate\<close>, and the store stays as it was.
\<close>

theorem counter_run_key_limit_counterexample:
  "\<forall>sha256.
     strategy (default_tracker\<lparr>maxKeys := 1\<rparr>) = SimpleCounterStrategy
     \<and> limit (default_tracker\<lparr>maxKeys := 1\<rparr>) = 5
     \<and> storage_get (generateCompositeKey sha256 ''api_error'' ''db'')
          [(generateCompositeKey sha256 ''api_error'' ''db'' @ ''x'',
            (counter_record (generateCompositeKey sha256 ''api_error'' ''db'' @ ''x''))
              \<lparr> category := ''login_fail'', ident := ''ip'' \<rparr>)] = None
     \<and> no_expiry (expireTime (default_tracker\<lparr>maxKeys := 1\<rparr>)) [0, 1, 2]
     \<and> trackEvents sha256 (default_tracker\<lparr>maxKeys := 1\<rparr>) ''api_error'' ''db'' None [0, 1, 2]
          [(generateCompositeKey sha256 ''api_error'' ''db'' @ ''x'',
            (counter_record (generateCompositeKey sha256 ''api_error'' ''db'' @ ''x''))
              \<lparr> category := ''login_fail'', ident := ''ip'' \<rparr>)]
         = Inr ([KeyLimitReached, KeyLimitReached, KeyLimitReached],
                [(generateCompositeKey sha256 ''api_error'' ''db'' @ ''x'',
                  (counter_record (generateCompositeKey sha256 ''api_error'' ''db'' @ ''x''))
                    \<lparr> category := ''login_fail'', ident := ''ip'' \<rparr>)])
     \<and> map result_type [KeyLimitReached, KeyLimitReached, KeyLimitReached]
         = [Ignored, Ignored, Ignored]"
  by (simp add: trackEvent_def Let_def default_tracker_def DEFAULT_LIMIT_def
      DEFAULT_EXPIRE_TIME_MS_def storage_get_def storage_size_def)

text \<open>
  C2, as the code has it. A call that finds the stored record expired
  (\<open>now > expiresAt\<close>) or of another fingerprint, and that the key-limit guard lets in,
  does what the same call does on the store without that key: both return the same
  outcome and the same record, and leave stores that hold the same record under every
  key. That record has \<open>count = 1\<close>, the snapshot of the tracker's configuration, and the
  strategy's fresh state; none of the old record's fields enters it. It has
  \<open>deferred = false\<close>, and the outcome is \<open>immediate\<close>, under the token bucket, and under
  the counter strategy when the limit is at least one; under a limit below one the first
  occurrence already exceeds the limit, so the fresh record is deferred at once, with
  outcome \<open>deferred\<close> and \<open>scheduledSendAt\<close> one defer interval ahead.
\<close>

theorem invalid_record_replaced:
  assumes stored: "storage_get (generateCompositeKey sha256 cat idt) S = Some old"
      and invalid: "now > expiresAt old \<or> detailsHash old \<noteq> generateDetailsHash sha256 dets"
      and room: "\<not> key_limit_reached T S"
  shows "\<exists>out r' S2 em.
           trackEvent sha256 T now cat idt dets S
             = Inr (Tracked out r', storage_set (generateCompositeKey sha256 cat idt) r' S,
                    [Emit_tracked r', Emit_outcome out r'])
         \<and> trackEvent sha256 T now cat idt dets (storage_delete (generateCompositeKey sha256 cat idt) S)
             = Inr (Tracked out r', S2, em)
         \<and> (\<forall>k. storage_get k S2
                  = storage_get k (storage_set (generateCompositeKey sha256 cat idt) r' S))
         \<and> count r' = 1 \<and> config r' = snapshot T
         \<and> deferred r' = (strategy T = SimpleCounterStrategy \<and> limit T < 1)
         \<and> out = (if deferred r' then Deferred else Immediate)
         \<and> scheduledSendAt r' = (if deferred r' then Some (Num (of_int (now + deferInterval T))) else None)
         \<and> strategyData r' =
             (case strategy T of
                SimpleCounterStrategy \<Rightarrow> None
              | TokenBucketStrategy bSize rRate \<Rightarrow> Some \<lparr> tokens = bSize - 1, lastRefill = now \<rparr>)"
proof -
  let ?k = "generateCompositeKey sha256 cat idt"
  let ?h = "generateDetailsHash sha256 dets"
  obtain out r' where new: "strategy_track T now None ?k cat idt dets ?h = Inr (out, r')"
      "count r' = 1" "config r' = snapshot T"
      "deferred r' = (strategy T = SimpleCounterStrategy \<and> limit T < 1)"
      "strategyData r' =
           (case strategy T of
              SimpleCounterStrategy \<Rightarrow> None
            | TokenBucketStrategy bSize rRate \<Rightarrow> Some \<lparr> tokens = bSize - 1, lastRefill = now \<rparr>)"
      "out = (if strategy T = SimpleCounterStrategy \<and> limit T < 1 then Deferred else Immediate)"
    using strategy_track_new [of T now ?k cat idt dets ?h] by blast
  have sched: "scheduledSendAt r' = (if deferred r' then Some (Num (of_int (now + deferInterval T))) else None)"
    using new(1)
    by (cases "strategy T")
       (auto simp add: strategy_track_def SimpleCounterStrategy_track_def
        TokenBucketStrategy_track_def Let_def js_gt_def js_add_def split: if_splits)
  have nv: "case storage_get ?k S of None \<Rightarrow> True
            | Some r \<Rightarrow> now > expiresAt r \<or> detailsHash r \<noteq> ?h"
    using stored invalid by simp
  have one: "trackEvent sha256 T now cat idt dets S
      = Inr (Tracked out r', storage_set ?k r' S, [Emit_tracked r', Emit_outcome out r'])"
    using trackEvent_fresh [OF nv room] new(1) by simp
  have nv2: "case storage_get ?k (storage_delete ?k S) of None \<Rightarrow> True
            | Some r \<Rightarrow> now > expiresAt r \<or> detailsHash r \<noteq> ?h"
    by simp
  have two: "trackEvent sha256 T now cat idt dets (storage_delete ?k S)
      = Inr (Tracked out r', storage_set ?k r' (storage_delete ?k S),
             [Emit_tracked r', Emit_outcome out r'])"
    using trackEvent_fresh [OF nv2 key_limit_delete [OF room]] new(1) by simp
  have same: "\<forall>k. storage_get k (storage_set ?k r' (storage_delete ?k S))
                 = storage_get k (storage_set ?k r' S)"
    by simp
  have outc: "out = (if deferred r' then Deferred else Immediate)"
    using new(4) new(6) by simp
  show ?thesis using one two same new(2-5) outc sched by blast
qed

text \<open>
  An instance: the default tracker meets its record of nine occurrences one millisecond
  after the record has expired.
\<close>

theorem invalid_record_replaced_witness:
  "\<forall>sha256.
     storage_get (generateCompositeKey sha256 ''api_error'' ''db'')
        [(generateCompositeKey sha256 ''api_error'' ''db'',
          counter_record (generateCompositeKey sha256 ''api_error'' ''db''))]
       = Some (counter_record (generateCompositeKey sha256 ''api_error'' ''db''))
     \<and> 86400001 > expiresAt (counter_record (generateCompositeKey sha256 ''api_error'' ''db''))
     \<and> \<not> key_limit_reached default_tracker
           [(generateCompositeKey sha256 ''api_error'' ''db'',
             counter_record (generateCompositeKey sha256 ''api_error'' ''db''))]
     \<and> (\<exists>r' S' em.
           trackEvent sha256 default_tracker 86400001 ''api_error'' ''db'' None
              [(generateCompositeKey sha256 ''api_error'' ''db'',
                counter_record (generateCompositeKey sha256 ''api_error'' ''db''))]
             = Inr (Tracked Immediate r', S', em)
         \<and> count r' = 1 \<and> \<not> deferred r' \<and> config_limit (config r') = Some 5)"
proof
  fix sha256 :: "string \<Rightarrow> string"
  let ?k = "generateCompositeKey sha256 ''api_error'' ''db''"
  let ?S = "[(?k, counter_record ?k)]"
  have a: "storage_get ?k ?S = Some (counter_record ?k)"
    by (simp add: storage_get_def)
  have b: "86400001 > expiresAt (counter_record ?k)
           \<or> detailsHash (counter_record ?k) \<noteq> generateDetailsHash sha256 None"
    by (simp add: counter_record_def)
  have c: "\<not> key_limit_reached default_tracker ?S"
    by (simp add: key_limit_reached_def default_tracker_def)
  have d: "strategy default_tracker = SimpleCounterStrategy" "\<not> limit default_tracker < 1"
      "snapshot default_tracker
        = \<lparr> config_limit = Some 5, config_deferInterval = Some (deferInterval default_tracker),
            config_bucketSize = None, config_refillRate = None \<rparr>"
    by (simp_all add: default_tracker_def DEFAULT_LIMIT_def snapshot_def)
  obtain out r' where
    e: "trackEvent sha256 default_tracker 86400001 ''api_error'' ''db'' None ?S
          = Inr (Tracked out r', storage_set ?k r' ?S, [Emit_tracked r', Emit_outcome out r'])"
       "count r' = 1" "config r' = snapshot default_tracker"
       "deferred r' = (strategy default_tracker = SimpleCounterStrategy \<and> limit default_tracker < 1)"
    using invalid_record_replaced [OF a b c] by blast
  have f: "out = Immediate"
    using e(1) a
    by (simp add: trackEvent_def Let_def strategy_track_def SimpleCounterStrategy_track_def
        counter_record_def default_tracker_def DEFAULT_LIMIT_def js_gt_def split: if_splits)
  show "storage_get ?k ?S = Some (counter_record ?k)
     \<and> 86400001 > expiresAt (counter_record ?k)
     \<and> \<not> key_limit_reached default_tracker ?S
     \<and> (\<exists>r' S' em.
           trackEvent sha256 default_tracker 86400001 ''api_error'' ''db'' None ?S
             = Inr (Tracked Immediate r', S', em)
         \<and> count r' = 1 \<and> \<not> deferred r' \<and> config_limit (config r') = Some 5)"
    using a c d e f by (simp add: counter_record_def)
qed

text \<open>
  Where C2 as stated fails: a tracker of the counter strategy with limit 0 and an expiry
  window of 10. The first occurrence at instant 0 creates the record; the second at
  instant 11 finds it expired and creates a fresh one, which has \<open>count = 1\<close> and is
  deferred, not \<open>deferred = false\<close>.
\<close>

theorem fresh_record_deferred_counterexample:
  "\<forall>sha256. \<exists>r1 r2 S'.
     trackEvents sha256 (default_tracker\<lparr>limit := 0, expireTime := 10\<rparr>)
        ''api_error'' ''db'' None [0, 11] []
       = Inr ([Tracked Deferred r1, Tracked Deferred r2], S')
     \<and> 11 > expiresAt r1 \<and> count r2 = 1 \<and> deferred r2"
  by (simp add: trackEvent_def Let_def strategy_track_def SimpleCounterStrategy_track_def
      default_tracker_def js_gt_def storage_get_def storage_set_def storage_size_def)

text \<open>
  C3, as the code has it. Under the counter strategy, an occurrence that finds its record
  deferred (and neither expired nor of another fingerprint) yields \<open>ignored\<close>: the count
  grows by one, the record stays deferred and \<open>scheduledSendAt\<close> stays as it was. Under
  the token bucket no tracked occurrence yields \<open>ignored\<close>: every occurrence that finds
  its record deferred (and neither expired nor of another fingerprint) and no token
  available, which is when \<open>currentTokens >= 1\<close> is false after the refill, yields
  \<open>deferred\<close> again, with \<open>scheduledSendAt\<close> computed anew from the instant of the call.
\<close>

theorem deferral_episode:
  "(strategy T = SimpleCounterStrategy
      \<and> storage_get (generateCompositeKey sha256 cat idt) S = Some r \<and> deferred r
      \<and> \<not> now > expiresAt r \<and> detailsHash r = generateDetailsHash sha256 dets
    \<longrightarrow> (\<exists>r' S' em. trackEvent sha256 T now cat idt dets S = Inr (Tracked Ignored r', S', em)
           \<and> storage_get (generateCompositeKey sha256 cat idt) S' = Some r'
           \<and> deferred r' \<and> scheduledSendAt r' = scheduledSendAt r \<and> count r' = count r + 1))
   \<and> (strategy T = TokenBucketStrategy bSize rRate
      \<and> trackEvent sha256 T now cat idt dets S = Inr (Tracked out r', S', em)
    \<longrightarrow> out \<noteq> Ignored)
   \<and> (strategy T = TokenBucketStrategy bSize rRate
      \<and> storage_get (generateCompositeKey sha256 cat idt) S = Some r \<and> deferred r
      \<and> \<not> now > expiresAt r \<and> detailsHash r = generateDetailsHash sha256 dets
      \<and> strategyData r = Some sd \<and> no_token now sd (config r)
    \<longrightarrow> (\<exists>r' S' em. trackEvent sha256 T now cat idt dets S = Inr (Tracked Deferred r', S', em)
           \<and> storage_get (generateCompositeKey sha256 cat idt) S' = Some r'
           \<and> deferred r' \<and> scheduledSendAt r' = Some (retry_at now (config r))))"
proof (intro conjI impI)
  assume a: "strategy T = SimpleCounterStrategy
      \<and> storage_get (generateCompositeKey sha256 cat idt) S = Some r \<and> deferred r
      \<and> \<not> now > expiresAt r \<and> detailsHash r = generateDetailsHash sha256 dets"
  then have v: "storage_get (generateCompositeKey sha256 cat idt) S = Some r"
      "\<not> now > expiresAt r" "detailsHash r = generateDetailsHash sha256 dets"
    by simp_all
  from a have d: "deferred r" and cs: "strategy T = SimpleCounterStrategy" by simp_all
  show "\<exists>r' S' em. trackEvent sha256 T now cat idt dets S = Inr (Tracked Ignored r', S', em)
           \<and> storage_get (generateCompositeKey sha256 cat idt) S' = Some r'
           \<and> deferred r' \<and> scheduledSendAt r' = scheduledSendAt r \<and> count r' = count r + 1"
    using d cs
    by (simp add: trackEvent_valid [OF v] strategy_track_def counter_track_deferred_record)
next
  assume b: "strategy T = TokenBucketStrategy bSize rRate
      \<and> trackEvent sha256 T now cat idt dets S = Inr (Tracked out r', S', em)"
  then obtain rcd where "strategy_track T now rcd (generateCompositeKey sha256 cat idt) cat idt dets
                     (generateDetailsHash sha256 dets) = Inr (out, r')"
    using trackEvent_tracked by blast
  with b have "TokenBucketStrategy_track bSize rRate T now rcd
      (generateCompositeKey sha256 cat idt) cat idt dets (generateDetailsHash sha256 dets)
        = Inr (out, r')"
    by (simp add: strategy_track_def)
  then show "out \<noteq> Ignored" by (rule token_bucket_track_outcome)
next
  assume c: "strategy T = TokenBucketStrategy bSize rRate
      \<and> storage_get (generateCompositeKey sha256 cat idt) S = Some r \<and> deferred r
      \<and> \<not> now > expiresAt r \<and> detailsHash r = generateDetailsHash sha256 dets
      \<and> strategyData r = Some sd \<and> no_token now sd (config r)"
  then have v: "storage_get (generateCompositeKey sha256 cat idt) S = Some r"
      "\<not> now > expiresAt r" "detailsHash r = generateDetailsHash sha256 dets"
    by simp_all
  from c have e: "strategyData r = Some sd" "no_token now sd (config r)"
    and tb: "strategy T = TokenBucketStrategy bSize rRate"
    by simp_all
  show "\<exists>r' S' em. trackEvent sha256 T now cat idt dets S = Inr (Tracked Deferred r', S', em)
           \<and> storage_get (generateCompositeKey sha256 cat idt) S' = Some r'
           \<and> deferred r' \<and> scheduledSendAt r' = Some (retry_at now (config r))"
    using tb
    by (simp add: trackEvent_valid [OF v] strategy_track_def token_bucket_track_no_token [OF e])
qed


text \<open>
  Instances: the default tracker meets the deferred record of the counter strategy at
  instant 10; a tracker with a token bucket of size 1 and rate 1 tracks a first occurrence,
  and meets the spent bucket at instant 500.
\<close>

theorem deferral_episode_witness:
  "\<forall>sha256.
     (strategy default_tracker = SimpleCounterStrategy
      \<and> deferred (counter_record (generateCompositeKey sha256 ''api_error'' ''db''))
      \<and> \<not> 10 > expiresAt (counter_record (generateCompositeKey sha256 ''api_error'' ''db''))
      \<and> (\<exists>r' S' em.
            trackEvent sha256 default_tracker 10 ''api_error'' ''db'' None
               [(generateCompositeKey sha256 ''api_error'' ''db'',
                 counter_record (generateCompositeKey sha256 ''api_error'' ''db''))]
              = Inr (Tracked Ignored r', S', em)
          \<and> deferred r' \<and> scheduledSendAt r' = Some (Num 3600000) \<and> count r' = 10))
   \<and> (\<exists>r' S' em.
          trackEvent sha256 (default_tracker\<lparr>strategy := TokenBucketStrategy 1 1\<rparr>) 0
             ''api_error'' ''db'' None []
            = Inr (Tracked Immediate r', S', em)
        \<and> Immediate \<noteq> Ignored)
   \<and> (deferred (bucket_record (generateCompositeKey sha256 ''api_error'' ''db''))
      \<and> no_token 500 \<lparr> tokens = 0, lastRefill = 0 \<rparr>
            (config (bucket_record (generateCompositeKey sha256 ''api_error'' ''db'')))
      \<and> (\<exists>r' S' em.
            trackEvent sha256 (default_tracker\<lparr>strategy := TokenBucketStrategy 1 1\<rparr>) 500
               ''api_error'' ''db'' None
               [(generateCompositeKey sha256 ''api_error'' ''db'',
                 bucket_record (generateCompositeKey sha256 ''api_error'' ''db''))]
              = Inr (Tracked Deferred r', S', em)
          \<and> deferred r' \<and> scheduledSendAt r' = Some (Num 1500)))"
proof
  fix sha256 :: "string \<Rightarrow> string"
  let ?k = "generateCompositeKey sha256 ''api_error'' ''db''"
  let ?C = "[(?k, counter_record ?k)]"
  let ?B = "[(?k, bucket_record ?k)]"
  let ?TB = "default_tracker\<lparr>strategy := TokenBucketStrategy 1 1\<rparr>"
  have cs: "strategy default_tracker = SimpleCounterStrategy"
    by (simp add: default_tracker_def)
  have tb: "strategy ?TB = TokenBucketStrategy 1 1"
    by simp
  have c1: "storage_get ?k ?C = Some (counter_record ?k)" by (simp add: storage_get_def)
  have c2: "deferred (counter_record ?k)" "\<not> 10 > expiresAt (counter_record ?k)"
      "detailsHash (counter_record ?k) = generateDetailsHash sha256 None"
    by (simp_all add: counter_record_def generateDetailsHash_def)
  have one: "\<exists>r' S' em.
        trackEvent sha256 default_tracker 10 ''api_error'' ''db'' None ?C
          = Inr (Tracked Ignored r', S', em)
      \<and> storage_get ?k S' = Some r'
      \<and> deferred r' \<and> scheduledSendAt r' = scheduledSendAt (counter_record ?k)
      \<and> count r' = count (counter_record ?k) + 1"
    using deferral_episode
      [of default_tracker sha256 "''api_error''" "''db''" ?C "counter_record ?k" 10 None]
      cs c1 c2 by blast
  have "\<exists>r' S' em.
      trackEvent sha256 ?TB 0 ''api_error'' ''db'' None [] = Inr (Tracked Immediate r', S', em)"
    by (simp add: trackEvent_def Let_def strategy_track_def TokenBucketStrategy_track_def
        storage_get_def default_tracker_def)
  then obtain r0 S0 em0 where
    first: "trackEvent sha256 ?TB 0 ''api_error'' ''db'' None []
              = Inr (Tracked Immediate r0, S0, em0)"
    by blast
  have two: "Immediate \<noteq> Ignored"
    using deferral_episode
      [of ?TB sha256 "''api_error''" "''db''" "[]" _ 0 None 1 1 Immediate r0 S0 em0]
      tb first by blast
  have b1: "storage_get ?k ?B = Some (bucket_record ?k)" by (simp add: storage_get_def)
  have b2: "deferred (bucket_record ?k)" "\<not> 500 > expiresAt (bucket_record ?k)"
      "detailsHash (bucket_record ?k) = generateDetailsHash sha256 None"
      "strategyData (bucket_record ?k) = Some \<lparr> tokens = 0, lastRefill = 0 \<rparr>"
    by (simp_all add: bucket_record_def generateDetailsHash_def)
  have half: "number_value (1 / 2) = Num (1 / 2)" by code_simp
  have b3: "no_token 500 \<lparr> tokens = 0, lastRefill = 0 \<rparr> (config (bucket_record ?k))"
    by (simp add: no_token_def currentTokens_def tokensToAdd_def ToNumber_def bucket_record_def
        half)
  have three: "\<exists>r' S' em.
        trackEvent sha256 ?TB 500 ''api_error'' ''db'' None ?B = Inr (Tracked Deferred r', S', em)
      \<and> storage_get ?k S' = Some r'
      \<and> deferred r' \<and> scheduledSendAt r' = Some (retry_at 500 (config (bucket_record ?k)))"
    using deferral_episode
      [of ?TB sha256 "''api_error''" "''db''" ?B "bucket_record ?k" 500 None 1 1 _ _ _ _
         "\<lparr> tokens = 0, lastRefill = 0 \<rparr>"]
      tb b1 b2 b3 by blast
  have vals: "scheduledSendAt (counter_record ?k) = Some (Num 3600000)"
      "count (counter_record ?k) + 1 = 10"
      "retry_at 500 (config (bucket_record ?k)) = Num 1500"
    using number_value_int [of 1500]
    by (simp_all add: counter_record_def bucket_record_def retry_at_rate_1)
  show "(strategy default_tracker = SimpleCounterStrategy
      \<and> deferred (counter_record ?k)
      \<and> \<not> 10 > expiresAt (counter_record ?k)
      \<and> (\<exists>r' S' em.
            trackEvent sha256 default_tracker 10 ''api_error'' ''db'' None ?C
              = Inr (Tracked Ignored r', S', em)
          \<and> deferred r' \<and> scheduledSendAt r' = Some (Num 3600000) \<and> count r' = 10))
   \<and> (\<exists>r' S' em.
          trackEvent sha256 ?TB 0 ''api_error'' ''db'' None [] = Inr (Tracked Immediate r', S', em)
        \<and> Immediate \<noteq> Ignored)
   \<and> (deferred (bucket_record ?k)
      \<and> no_token 500 \<lparr> tokens = 0, lastRefill = 0 \<rparr> (config (bucket_record ?k))
      \<and> (\<exists>r' S' em.
            trackEvent sha256 ?TB 500 ''api_error'' ''db'' None ?B
              = Inr (Tracked Deferred r', S', em)
          \<and> deferred r' \<and> scheduledSendAt r' = Some (Num 1500)))"
    using cs c2(1,2) b2(1) b3 one first two three unfolding vals by blast
qed

text \<open>
  Where C3 as stated fails: a token bucket of size 1 and rate 1, three occurrences at one
  instant. The first is admitted, the second is suppressed and sets \<open>deferred\<close>, and the
  third, which finds \<open>deferred = true\<close>, yields \<open>deferred\<close> a second time, not \<open>ignored\<close>.
\<close>

theorem token_bucket_defers_again_counterexample:
  "\<forall>sha256. \<exists>r1 r2 r3 S'.
     trackEvents sha256 (default_tracker\<lparr>strategy := TokenBucketStrategy 1 1\<rparr>)
        ''api_error'' ''db'' None [0, 0, 0] []
       = Inr ([Tracked Immediate r1, Tracked Deferred r2, Tracked Deferred r3], S')
     \<and> deferred r2 \<and> deferred r3"
  by (simp add: trackEvent_def Let_def strategy_track_def TokenBucketStrategy_track_def
      default_tracker_def DEFAULT_EXPIRE_TIME_MS_def storage_get_def storage_set_def
      storage_size_def currentTokens_no_elapsed tokensToAdd_no_elapsed)

text \<open>
  C4, as the code has it. Under the counter strategy with limit 5, seven consecutive
  \<open>trackEvent\<close> calls with the same category, identifier and details, from a key the
  store does not hold and which the key limit lets in, with no call finding the record
  expired, have the outcomes immediate (five times), deferred, ignored, and the counts
  observed after the calls are 1, 2, 3, 4, 5, 6, 7: the ignored occurrence is counted too.
\<close>

theorem counter_seven_calls:
  assumes "strategy T = SimpleCounterStrategy" and "limit T = 5"
      and "storage_get (generateCompositeKey sha256 cat idt) S = None"
      and "\<not> key_limit_reached T S"
      and "length nows = 7"
      and "no_expiry (expireTime T) nows"
  shows "outcomes_of (trackEvents sha256 T cat idt dets nows S)
           = [Immediate, Immediate, Immediate, Immediate, Immediate, Deferred, Ignored]
         \<and> counts_of (trackEvents sha256 T cat idt dets nows S)
           = [Some 1, Some 2, Some 3, Some 4, Some 5, Some 6, Some 7]"
  using assms by (rule counter_limit5_run)

text \<open>
  An instance: a tracker with limit 5 and an expiry window of one minute, as the quick start
  of the documentation builds it, on an empty store, seven calls one second apart.
\<close>

theorem counter_seven_calls_witness:
  "\<forall>sha256.
     strategy (default_tracker\<lparr>limit := 5, expireTime := 60000\<rparr>) = SimpleCounterStrategy
     \<and> limit (default_tracker\<lparr>limit := 5, expireTime := 60000\<rparr>) = 5
     \<and> storage_get (generateCompositeKey sha256 ''database_errors'' ''user-service'') [] = None
     \<and> \<not> key_limit_reached (default_tracker\<lparr>limit := 5, expireTime := 60000\<rparr>) []
     \<and> length [0, 1000, 2000, 3000, 4000, 5000, 6000 :: int] = 7
     \<and> no_expiry (expireTime (default_tracker\<lparr>limit := 5, expireTime := 60000\<rparr>))
           [0, 1000, 2000, 3000, 4000, 5000, 6000]
     \<and> outcomes_of
           (trackEvents sha256 (default_tracker\<lparr>limit := 5, expireTime := 60000\<rparr>)
              ''database_errors'' ''user-service''
              (Some (JObj [(''code'', JStr ''E_CONN''), (''host'', JStr ''db-1'')]))
              [0, 1000, 2000, 3000, 4000, 5000, 6000] [])
         = [Immediate, Immediate, Immediate, Immediate, Immediate, Deferred, Ignored]
     \<and> counts_of
           (trackEvents sha256 (default_tracker\<lparr>limit := 5, expireTime := 60000\<rparr>)
              ''database_errors'' ''user-service''
              (Some (JObj [(''code'', JStr ''E_CONN''), (''host'', JStr ''db-1'')]))
              [0, 1000, 2000, 3000, 4000, 5000, 6000] [])
         = [Some 1, Some 2, Some 3, Some 4, Some 5, Some 6, Some 7]"
proof
  fix sha256 :: "string \<Rightarrow> string"
  let ?T = "default_tracker\<lparr>limit := 5, expireTime := 60000\<rparr>"
  let ?nows = "[0, 1000, 2000, 3000, 4000, 5000, 6000 :: int]"
  have a: "strategy ?T = SimpleCounterStrategy" by (simp add: default_tracker_def)
  have b: "limit ?T = 5" by simp
  have c: "storage_get (generateCompositeKey sha256 ''database_errors'' ''user-service'') [] = None"
    by (simp add: storage_get_def)
  have d: "\<not> key_limit_reached ?T []"
    by (simp add: key_limit_reached_def default_tracker_def)
  have e: "length ?nows = 7" by simp
  have f: "no_expiry (expireTime ?T) ?nows" by simp
  show "strategy ?T = SimpleCounterStrategy
     \<and> limit ?T = 5
     \<and> storage_get (generateCompositeKey sha256 ''database_errors'' ''user-service'') [] = None
     \<and> \<not> key_limit_reached ?T []
     \<and> length ?nows = 7
     \<and> no_expiry (expireTime ?T) ?nows
     \<and> outcomes_of
           (trackEvents sha256 ?T ''database_errors'' ''user-service''
              (Some (JObj [(''code'', JStr ''E_CONN''), (''host'', JStr ''db-1'')])) ?nows [])
         = [Immediate, Immediate, Immediate, Immediate, Immediate, Deferred, Ignored]
     \<and> counts_of
           (trackEvents sha256 ?T ''database_errors'' ''user-service''
              (Some (JObj [(''code'', JStr ''E_CONN''), (''host'', JStr ''db-1'')])) ?nows [])
         = [Some 1, Some 2, Some 3, Some 4, Some 5, Some 6, Some 7]"
    using a b c d e f
      counter_seven_calls [OF a b c d e f,
        of "Some (JObj [(''code'', JStr ''E_CONN''), (''host'', JStr ''db-1'')])"]
    by blast
qed

text \<open>
  Where C4 as stated fails: the default tracker, whose limit is 5, on an empty store, seven
  calls at the instants 0 to 6. The count observed after the seventh call is 7, so the
  counts are not 1, 2, 3, 4, 5, 6, 6.
\<close>

theorem seventh_count_counterexample:
  "\<forall>sha256.
     counts_of (trackEvents sha256 default_tracker ''database_errors'' ''user-service''
                  (Some (JObj [(''code'', JStr ''E_CONN''), (''host'', JStr ''db-1'')]))
                  [0, 1, 2, 3, 4, 5, 6] [])
       = [Some 1, Some 2, Some 3, Some 4, Some 5, Some 6, Some 7]
     \<and> counts_of (trackEvents sha256 default_tracker ''database_errors'' ''user-service''
                  (Some (JObj [(''code'', JStr ''E_CONN''), (''host'', JStr ''db-1'')]))
                  [0, 1, 2, 3, 4, 5, 6] [])
       \<noteq> [Some 1, Some 2, Some 3, Some 4, Some 5, Some 6, Some 6]"
proof
  fix sha256 :: "string \<Rightarrow> string"
  have a: "strategy default_tracker = SimpleCounterStrategy" "limit default_tracker = 5"
    by (simp_all add: default_tracker_def DEFAULT_LIMIT_def)
  have c: "storage_get (generateCompositeKey sha256 ''database_errors'' ''user-service'') [] = None"
    by (simp add: storage_get_def)
  have d: "\<not> key_limit_reached default_tracker []"
    by (simp add: key_limit_reached_def default_tracker_def)
  have e: "length [0, 1, 2, 3, 4, 5, 6 :: int] = 7" by simp
  have f: "no_expiry (expireTime default_tracker) [0, 1, 2, 3, 4, 5, 6]"
    by (simp add: default_tracker_def DEFAULT_EXPIRE_TIME_MS_def)
  have "counts_of (trackEvents sha256 default_tracker ''database_errors'' ''user-service''
                  (Some (JObj [(''code'', JStr ''E_CONN''), (''host'', JStr ''db-1'')]))
                  [0, 1, 2, 3, 4, 5, 6] [])
       = [Some 1, Some 2, Some 3, Some 4, Some 5, Some 6, Some 7]"
    using counter_limit5_run [OF a c d e f] by blast
  then show "counts_of (trackEvents sha256 default_tracker ''database_errors'' ''user-service''
                  (Some (JObj [(''code'', JStr ''E_CONN''), (''host'', JStr ''db-1'')]))
                  [0, 1, 2, 3, 4, 5, 6] [])
       = [Some 1, Some 2, Some 3, Some 4, Some 5, Some 6, Some 7]
     \<and> counts_of (trackEvents sha256 default_tracker ''database_errors'' ''user-service''
                  (Some (JObj [(''code'', JStr ''E_CONN''), (''host'', JStr ''db-1'')]))
                  [0, 1, 2, 3, 4, 5, 6] [])
       \<noteq> [Some 1, Some 2, Some 3, Some 4, Some 5, Some 6, Some 6]"
    by simp
qed

text \<open>
  C5. When \<open>maxKeys\<close> is positive and the store holds at least that many keys, a
  \<open>trackEvent\<close> call for a key with no valid record (absent, expired or of another
  fingerprint) returns \<open>ignored\<close> with reason \<open>key_limit_reached\<close>, emits that
  notification only and leaves the store as it is: the strategy is not asked and nothing is
  written. A call for a key with a valid record does not depend on \<open>maxKeys\<close> at all and
  is never answered with \<open>key_limit_reached\<close>.
\<close>

theorem key_limit_guard:
  "(maxKeys T > 0 \<and> storage_size S \<ge> maxKeys T
      \<and> (case storage_get (generateCompositeKey sha256 cat idt) S of
            None \<Rightarrow> True
          | Some r \<Rightarrow> now > expiresAt r \<or> detailsHash r \<noteq> generateDetailsHash sha256 dets)
     \<longrightarrow> trackEvent sha256 T now cat idt dets S
           = Inr (KeyLimitReached, S, [Emit_key_limit_reached cat idt dets]))
   \<and> (storage_get (generateCompositeKey sha256 cat idt) S = Some r
        \<and> \<not> now > expiresAt r \<and> detailsHash r = generateDetailsHash sha256 dets
     \<longrightarrow> trackEvent sha256 T now cat idt dets S
           = trackEvent sha256 (T\<lparr>maxKeys := m\<rparr>) now cat idt dets S
         \<and> (\<forall>res S' em. trackEvent sha256 T now cat idt dets S = Inr (res, S', em)
               \<longrightarrow> res \<noteq> KeyLimitReached))"
proof (intro conjI impI)
  assume a: "maxKeys T > 0 \<and> storage_size S \<ge> maxKeys T
      \<and> (case storage_get (generateCompositeKey sha256 cat idt) S of
            None \<Rightarrow> True
          | Some r \<Rightarrow> now > expiresAt r \<or> detailsHash r \<noteq> generateDetailsHash sha256 dets)"
  then have "key_limit_reached T S" by (simp add: key_limit_reached_def)
  then show "trackEvent sha256 T now cat idt dets S
           = Inr (KeyLimitReached, S, [Emit_key_limit_reached cat idt dets])"
    using a trackEvent_rejected by blast
next
  assume b: "storage_get (generateCompositeKey sha256 cat idt) S = Some r
        \<and> \<not> now > expiresAt r \<and> detailsHash r = generateDetailsHash sha256 dets"
  then have v: "storage_get (generateCompositeKey sha256 cat idt) S = Some r"
      "\<not> now > expiresAt r" "detailsHash r = generateDetailsHash sha256 dets"
    by simp_all
  show "trackEvent sha256 T now cat idt dets S
           = trackEvent sha256 (T\<lparr>maxKeys := m\<rparr>) now cat idt dets S"
    by (simp add: trackEvent_valid [OF v] strategy_track_maxKeys)
  show "\<forall>res S' em. trackEvent sha256 T now cat idt dets S = Inr (res, S', em)
               \<longrightarrow> res \<noteq> KeyLimitReached"
    by (auto simp add: trackEvent_valid [OF v] split: sum.splits)
qed


text \<open>
  Instances: a tracker with \<open>maxKeys = 1\<close> whose store holds one record, expiring
  after a day. One millisecond later the record is expired and the call is turned away; at
  instant 10 it is valid and the call is tracked as it is without a key limit.
\<close>

theorem key_limit_guard_witness:
  "\<forall>sha256.
     maxKeys (default_tracker\<lparr>maxKeys := 1\<rparr>) > 0
     \<and> storage_size [(generateCompositeKey sha256 ''api_error'' ''db'',
                       counter_record (generateCompositeKey sha256 ''api_error'' ''db''))]
          \<ge> maxKeys (default_tracker\<lparr>maxKeys := 1\<rparr>)
     \<and> 86400001 > expiresAt (counter_record (generateCompositeKey sha256 ''api_error'' ''db''))
     \<and> trackEvent sha256 (default_tracker\<lparr>maxKeys := 1\<rparr>) 86400001 ''api_error'' ''db'' None
           [(generateCompositeKey sha256 ''api_error'' ''db'',
             counter_record (generateCompositeKey sha256 ''api_error'' ''db''))]
         = Inr (KeyLimitReached,
                [(generateCompositeKey sha256 ''api_error'' ''db'',
                  counter_record (generateCompositeKey sha256 ''api_error'' ''db''))],
                [Emit_key_limit_reached ''api_error'' ''db'' None])
     \<and> \<not> 10 > expiresAt (counter_record (generateCompositeKey sha256 ''api_error'' ''db''))
     \<and> detailsHash (counter_record (generateCompositeKey sha256 ''api_error'' ''db''))
         = generateDetailsHash sha256 None
     \<and> trackEvent sha256 (default_tracker\<lparr>maxKeys := 1\<rparr>) 10 ''api_error'' ''db'' None
           [(generateCompositeKey sha256 ''api_error'' ''db'',
             counter_record (generateCompositeKey sha256 ''api_error'' ''db''))]
         = trackEvent sha256 (default_tracker\<lparr>maxKeys := 1, maxKeys := 0\<rparr>) 10
             ''api_error'' ''db'' None
             [(generateCompositeKey sha256 ''api_error'' ''db'',
               counter_record (generateCompositeKey sha256 ''api_error'' ''db''))]"
proof
  fix sha256 :: "string \<Rightarrow> string"
  let ?k = "generateCompositeKey sha256 ''api_error'' ''db''"
  let ?S = "[(?k, counter_record ?k)]"
  let ?T = "default_tracker\<lparr>maxKeys := 1\<rparr>"
  have a: "maxKeys ?T > 0" "storage_size ?S \<ge> maxKeys ?T"
    by (simp_all add: storage_size_def)
  have g: "storage_get ?k ?S = Some (counter_record ?k)" by (simp add: storage_get_def)
  have b: "86400001 > expiresAt (counter_record ?k)" "\<not> 10 > expiresAt (counter_record ?k)"
      "detailsHash (counter_record ?k) = generateDetailsHash sha256 None"
    by (simp_all add: counter_record_def generateDetailsHash_def)
  have nv: "case storage_get ?k ?S of
              None \<Rightarrow> True
            | Some r \<Rightarrow> 86400001 > expiresAt r \<or> detailsHash r \<noteq> generateDetailsHash sha256 None"
    using g b(1) by simp
  have one: "trackEvent sha256 ?T 86400001 ''api_error'' ''db'' None ?S
         = Inr (KeyLimitReached, ?S, [Emit_key_limit_reached ''api_error'' ''db'' None])"
    using key_limit_guard
            [where T = ?T and S = ?S and cat = "''api_error''" and idt = "''db''" and now = 86400001
               and dets = None]
      a nv by blast
  have two: "trackEvent sha256 ?T 10 ''api_error'' ''db'' None ?S
         = trackEvent sha256 (?T\<lparr>maxKeys := 0\<rparr>) 10 ''api_error'' ''db'' None ?S"
    using key_limit_guard
            [where T = ?T and S = ?S and cat = "''api_error''" and idt = "''db''" and now = 10
               and dets = None and r = "counter_record ?k" and m = 0]
      g b(2,3) by blast
  show "maxKeys ?T > 0
     \<and> storage_size ?S \<ge> maxKeys ?T
     \<and> 86400001 > expiresAt (counter_record ?k)
     \<and> trackEvent sha256 ?T 86400001 ''api_error'' ''db'' None ?S
         = Inr (KeyLimitReached, ?S, [Emit_key_limit_reached ''api_error'' ''db'' None])
     \<and> \<not> 10 > expiresAt (counter_record ?k)
     \<and> detailsHash (counter_record ?k) = generateDetailsHash sha256 None
     \<and> trackEvent sha256 ?T 10 ''api_error'' ''db'' None ?S
         = trackEvent sha256 (?T\<lparr>maxKeys := 0\<rparr>) 10 ''api_error'' ''db'' None ?S"
    using a b one two by blast
qed

text \<open>
  C6. Under the token bucket, whenever a \<open>trackEvent\<close> call is admitted (outcome
  \<open>immediate\<close>), the record it returns, which is the record it stores, has
  \<open>deferred = false\<close> and \<open>scheduledSendAt = null\<close>, whatever the record held before:
  an admission returns a deferred key to the active state.
\<close>

theorem token_bucket_admission_clears_deferral:
  assumes "strategy T = TokenBucketStrategy bSize rRate"
      and "trackEvent sha256 T now cat idt dets S = Inr (Tracked Immediate r', S', em)"
  shows "\<not> deferred r' \<and> scheduledSendAt r' = None
         \<and> storage_get (generateCompositeKey sha256 cat idt) S' = Some r'"
proof -
  obtain rcd where
    tr: "strategy_track T now rcd (generateCompositeKey sha256 cat idt) cat idt dets
           (generateDetailsHash sha256 dets) = Inr (Immediate, r')"
    and st: "S' = storage_set (generateCompositeKey sha256 cat idt) r' S"
    using trackEvent_tracked [OF assms(2)] by blast
  from tr assms(1) have "TokenBucketStrategy_track bSize rRate T now rcd
      (generateCompositeKey sha256 cat idt) cat idt dets (generateDetailsHash sha256 dets)
        = Inr (Immediate, r')"
    by (simp add: strategy_track_def)
  from token_bucket_track_immediate [OF this] st show ?thesis by simp
qed

text \<open>
  An instance: the spent bucket of size 1 and rate 1, deferred since instant 0, meets an
  occurrence at instant 1000. One token has come back, the occurrence is admitted and the
  record is no longer deferred.
\<close>

theorem token_bucket_admission_clears_deferral_witness:
  "\<forall>sha256.
     strategy (default_tracker\<lparr>strategy := TokenBucketStrategy 1 1\<rparr>) = TokenBucketStrategy 1 1
     \<and> deferred (bucket_record (generateCompositeKey sha256 ''api_error'' ''db''))
     \<and> (\<exists>r' S' em.
           trackEvent sha256 (default_tracker\<lparr>strategy := TokenBucketStrategy 1 1\<rparr>) 1000
              ''api_error'' ''db'' None
              [(generateCompositeKey sha256 ''api_error'' ''db'',
                bucket_record (generateCompositeKey sha256 ''api_error'' ''db''))]
             = Inr (Tracked Immediate r', S', em)
         \<and> \<not> deferred r' \<and> scheduledSendAt r' = None
         \<and> storage_get (generateCompositeKey sha256 ''api_error'' ''db'') S' = Some r')"
proof
  fix sha256 :: "string \<Rightarrow> string"
  let ?k = "generateCompositeKey sha256 ''api_error'' ''db''"
  let ?S = "[(?k, bucket_record ?k)]"
  let ?T = "default_tracker\<lparr>strategy := TokenBucketStrategy 1 1\<rparr>"
  have tb: "strategy ?T = TokenBucketStrategy 1 1" by simp
  have d: "deferred (bucket_record ?k)" by (simp add: bucket_record_def)
  have ct: "currentTokens 1000 \<lparr> tokens = 0, lastRefill = 0 \<rparr>
              \<lparr> config_limit = None, config_deferInterval = Some 3600000,
                config_bucketSize = Some 1, config_refillRate = Some 1 \<rparr> = Some 1"
    by code_simp
  have "\<exists>r' S' em. trackEvent sha256 ?T 1000 ''api_error'' ''db'' None ?S
          = Inr (Tracked Immediate r', S', em)"
    by (simp add: trackEvent_def Let_def strategy_track_def TokenBucketStrategy_track_def
        storage_get_def bucket_record_def generateDetailsHash_def ct)
  then obtain r' S' em where
    run: "trackEvent sha256 ?T 1000 ''api_error'' ''db'' None ?S = Inr (Tracked Immediate r', S', em)"
    by blast
  from token_bucket_admission_clears_deferral [OF tb run]
  show "strategy ?T = TokenBucketStrategy 1 1
     \<and> deferred (bucket_record ?k)
     \<and> (\<exists>r' S' em.
           trackEvent sha256 ?T 1000 ''api_error'' ''db'' None ?S
             = Inr (Tracked Immediate r', S', em)
         \<and> \<not> deferred r' \<and> scheduledSendAt r' = None
         \<and> storage_get ?k S' = Some r')"
    using tb d run by blast
qed

text \<open>
  C7, as the code has it. Under the token bucket with \<open>bucketSize = 5\<close> and
  \<open>refillRate = 1\<close> token a second, on a tracker whose \<open>expireTime\<close> is not negative,
  seven \<open>trackEvent\<close> occurrences at one instant \<open>t\<close>, from a key the store does not hold
  and which the key limit lets in, are answered \<open>immediate\<close> five times and \<open>deferred\<close>
  twice, and each of the two suppressed occurrences sets \<open>scheduledSendAt\<close> to the double
  nearest to \<open>t + 1000\<close>, which is \<open>t + 1000\<close> itself up to \<open>2^53\<close>. In general, of two
  suppressed occurrences that follow one another at the instants \<open>nowA \<le> nowB\<close>, each
  sets \<open>scheduledSendAt\<close> to the value of \<open>now + (1 / refillRate) * 1000\<close> in doubles at
  its own instant, for the rate of the record's config, which the two share; where that
  config has a rate, zero included, the second stored value is not below the first.
\<close>

theorem token_bucket_burst:
  "(strategy T = TokenBucketStrategy 5 1
      \<and> storage_get (generateCompositeKey sha256 cat idt) S = None
      \<and> \<not> key_limit_reached T S \<and> 0 \<le> expireTime T
    \<longrightarrow> (\<exists>rs S'. trackEvents sha256 T cat idt dets [t, t, t, t, t, t, t] S = Inr (rs, S')
           \<and> map result_type rs
               = [Immediate, Immediate, Immediate, Immediate, Immediate, Deferred, Deferred]
           \<and> map (map_option scheduledSendAt \<circ> result_data) rs
               = [Some None, Some None, Some None, Some None, Some None,
                  Some (Some (number_value (of_int t + 1000))),
                  Some (Some (number_value (of_int t + 1000)))])
        \<and> (\<bar>t + 1000\<bar> \<le> 2 ^ 53 \<longrightarrow> number_value (of_int t + 1000) = Num (of_int t + 1000)))
   \<and> (strategy T = TokenBucketStrategy bSize rRate
      \<and> trackEvent sha256 T nowA cat idt dets S = Inr (Tracked Deferred rA, SA, emA)
      \<and> trackEvent sha256 T nowB cat idt dets SA = Inr (Tracked Deferred rB, SB, emB)
      \<and> nowA \<le> nowB
    \<longrightarrow> (\<exists>a b. scheduledSendAt rA = Some a \<and> scheduledSendAt rB = Some b
           \<and> a = retry_at nowA (config rA) \<and> b = retry_at nowB (config rB)
           \<and> config rB = config rA
           \<and> (config_refillRate (config rA) \<noteq> None \<longrightarrow> js_le a b)))"
proof (intro conjI impI)
  assume "strategy T = TokenBucketStrategy 5 1
      \<and> storage_get (generateCompositeKey sha256 cat idt) S = None
      \<and> \<not> key_limit_reached T S \<and> 0 \<le> expireTime T"
  then show "\<exists>rs S'. trackEvents sha256 T cat idt dets [t, t, t, t, t, t, t] S = Inr (rs, S')
           \<and> map result_type rs
               = [Immediate, Immediate, Immediate, Immediate, Immediate, Deferred, Deferred]
           \<and> map (map_option scheduledSendAt \<circ> result_data) rs
               = [Some None, Some None, Some None, Some None, Some None,
                  Some (Some (number_value (of_int t + 1000))),
                  Some (Some (number_value (of_int t + 1000)))]"
    using token_bucket_scenario [of T sha256 cat idt S dets t] by blast
next
  assume "\<bar>t + 1000\<bar> \<le> 2 ^ 53"
  then show "number_value (of_int t + 1000) = Num (of_int t + 1000)"
    using number_value_int [of "t + 1000"] by simp
next
  assume a: "strategy T = TokenBucketStrategy bSize rRate
      \<and> trackEvent sha256 T nowA cat idt dets S = Inr (Tracked Deferred rA, SA, emA)
      \<and> trackEvent sha256 T nowB cat idt dets SA = Inr (Tracked Deferred rB, SB, emB)
      \<and> nowA \<le> nowB"
  then have tb: "strategy T = TokenBucketStrategy bSize rRate"
    and one: "trackEvent sha256 T nowA cat idt dets S = Inr (Tracked Deferred rA, SA, emA)"
    and two: "trackEvent sha256 T nowB cat idt dets SA = Inr (Tracked Deferred rB, SB, emB)"
    and le: "nowA \<le> nowB"
    by simp_all
  note s = suppressed_schedule [OF tb one two]
  have "config_refillRate (config rA) \<noteq> None
          \<longrightarrow> js_le (retry_at nowA (config rA)) (retry_at nowB (config rA))"
    using retry_at_mono [of "config rA" _ nowA nowB] le by auto
  with s show "\<exists>a b. scheduledSendAt rA = Some a \<and> scheduledSendAt rB = Some b
           \<and> a = retry_at nowA (config rA) \<and> b = retry_at nowB (config rB)
           \<and> config rB = config rA
           \<and> (config_refillRate (config rA) \<noteq> None \<longrightarrow> js_le a b)"
    by simp
qed

text \<open>
  Instances: the burst of seven on the empty store of a tracker that is otherwise the
  default one; and the spent bucket of size 1 and rate 1, which meets occurrences at the
  instants 100 and 200 and schedules the retry at 1100 and then at 1200.
\<close>

theorem token_bucket_burst_witness:
  "\<forall>sha256.
     (strategy (default_tracker\<lparr>strategy := TokenBucketStrategy 5 1\<rparr>) = TokenBucketStrategy 5 1
      \<and> \<not> key_limit_reached (default_tracker\<lparr>strategy := TokenBucketStrategy 5 1\<rparr>) []
      \<and> 0 \<le> expireTime (default_tracker\<lparr>strategy := TokenBucketStrategy 5 1\<rparr>)
      \<and> (\<exists>rs S'.
        trackEvents sha256 (default_tracker\<lparr>strategy := TokenBucketStrategy 5 1\<rparr>)
          ''api_error'' ''payment_gateway'' (Some (JObj [(''code'', JNum 503)]))
          [0, 0, 0, 0, 0, 0, 0] [] = Inr (rs, S')
        \<and> map result_type rs
            = [Immediate, Immediate, Immediate, Immediate, Immediate, Deferred, Deferred]
        \<and> map (map_option scheduledSendAt \<circ> result_data) rs
            = [Some None, Some None, Some None, Some None, Some None,
               Some (Some (Num 1000)), Some (Some (Num 1000))]))
   \<and> (\<exists>r1 S1 em1 r2 S2 em2.
        trackEvent sha256 (default_tracker\<lparr>strategy := TokenBucketStrategy 1 1\<rparr>) 100
           ''api_error'' ''db'' None
           [(generateCompositeKey sha256 ''api_error'' ''db'',
             bucket_record (generateCompositeKey sha256 ''api_error'' ''db''))]
          = Inr (Tracked Deferred r1, S1, em1)
        \<and> trackEvent sha256 (default_tracker\<lparr>strategy := TokenBucketStrategy 1 1\<rparr>) 200
             ''api_error'' ''db'' None S1
          = Inr (Tracked Deferred r2, S2, em2)
        \<and> config_refillRate (config r1) = Some 1
        \<and> scheduledSendAt r1 = Some (Num 1100) \<and> scheduledSendAt r2 = Some (Num 1200)
        \<and> js_le (Num 1100) (Num 1200))"
proof
  fix sha256 :: "string \<Rightarrow> string"
  let ?k = "generateCompositeKey sha256 ''api_error'' ''db''"
  let ?S = "[(?k, bucket_record ?k)]"
  let ?T5 = "default_tracker\<lparr>strategy := TokenBucketStrategy 5 1\<rparr>"
  let ?T1 = "default_tracker\<lparr>strategy := TokenBucketStrategy 1 1\<rparr>"
  have a: "strategy ?T5 = TokenBucketStrategy 5 1"
      "storage_get (generateCompositeKey sha256 ''api_error'' ''payment_gateway'') [] = None"
      "\<not> key_limit_reached ?T5 []" "0 \<le> expireTime ?T5"
    by (simp_all add: storage_get_def key_limit_reached_def default_tracker_def
        DEFAULT_EXPIRE_TIME_MS_def)
  have one: "(\<exists>rs S'.
        trackEvents sha256 ?T5 ''api_error'' ''payment_gateway'' (Some (JObj [(''code'', JNum 503)]))
          [0, 0, 0, 0, 0, 0, 0] [] = Inr (rs, S')
        \<and> map result_type rs
            = [Immediate, Immediate, Immediate, Immediate, Immediate, Deferred, Deferred]
        \<and> map (map_option scheduledSendAt \<circ> result_data) rs
            = [Some None, Some None, Some None, Some None, Some None,
               Some (Some (number_value (of_int 0 + 1000))),
               Some (Some (number_value (of_int 0 + 1000)))])
      \<and> (\<bar>(0 :: int) + 1000\<bar> \<le> 2 ^ 53
           \<longrightarrow> number_value (of_int 0 + 1000) = Num (of_int 0 + 1000))"
    using token_bucket_burst
            [where T = ?T5 and cat = "''api_error''" and idt = "''payment_gateway''"
               and S = "[]" and dets = "Some (JObj [(''code'', JNum 503)])" and t = 0]
      a by blast
  then have v: "number_value (of_int 0 + 1000) = Num 1000" by simp
  have tb: "strategy ?T1 = TokenBucketStrategy 1 1" by simp
  have ct: "currentTokens 100 \<lparr> tokens = 0, lastRefill = 0 \<rparr>
              \<lparr> config_limit = None, config_deferInterval = Some 3600000,
                config_bucketSize = Some 1, config_refillRate = Some 1 \<rparr> = Some 0"
      "\<not> Number_lessThan (Num 0)
          (tokensToAdd 100 \<lparr> tokens = 0, lastRefill = 0 \<rparr>
             \<lparr> config_limit = None, config_deferInterval = Some 3600000,
               config_bucketSize = Some 1, config_refillRate = Some 1 \<rparr>)"
      "currentTokens 200 \<lparr> tokens = 0, lastRefill = 0 \<rparr>
              \<lparr> config_limit = None, config_deferInterval = Some 3600000,
                config_bucketSize = Some 1, config_refillRate = Some 1 \<rparr> = Some 0"
    by code_simp+
  have "\<exists>r1 S1 em1 r2 S2 em2.
          trackEvent sha256 ?T1 100 ''api_error'' ''db'' None ?S = Inr (Tracked Deferred r1, S1, em1)
        \<and> trackEvent sha256 ?T1 200 ''api_error'' ''db'' None S1 = Inr (Tracked Deferred r2, S2, em2)
        \<and> config_refillRate (config r1) = Some 1"
    by (simp add: trackEvent_def Let_def strategy_track_def TokenBucketStrategy_track_def
        storage_get_def storage_set_def bucket_record_def generateDetailsHash_def ct)
  then obtain r1 S1 em1 r2 S2 em2 where
    run: "trackEvent sha256 ?T1 100 ''api_error'' ''db'' None ?S = Inr (Tracked Deferred r1, S1, em1)"
         "trackEvent sha256 ?T1 200 ''api_error'' ''db'' None S1 = Inr (Tracked Deferred r2, S2, em2)"
         "config_refillRate (config r1) = Some 1"
    by blast
  have "\<exists>a b. scheduledSendAt r1 = Some a \<and> scheduledSendAt r2 = Some b
           \<and> a = retry_at 100 (config r1) \<and> b = retry_at 200 (config r2)
           \<and> config r2 = config r1
           \<and> (config_refillRate (config r1) \<noteq> None \<longrightarrow> js_le a b)"
    using token_bucket_burst
            [of ?T1 sha256 "''api_error''" "''db''" ?S None _ 1 1 100 r1 S1 em1 200 r2 S2 em2]
      tb run by auto
  moreover have "retry_at 100 (config r1) = Num 1100" "retry_at 200 (config r1) = Num 1200"
    using number_value_int [of 1100] number_value_int [of 1200] run(3)
    by (simp_all add: retry_at_rate_1)
  ultimately have two: "scheduledSendAt r1 = Some (Num 1100) \<and> scheduledSendAt r2 = Some (Num 1200)
      \<and> js_le (Num 1100) (Num 1200)"
    using run(3) by auto
  show "(strategy ?T5 = TokenBucketStrategy 5 1
      \<and> \<not> key_limit_reached ?T5 []
      \<and> 0 \<le> expireTime ?T5
      \<and> (\<exists>rs S'.
        trackEvents sha256 ?T5 ''api_error'' ''payment_gateway'' (Some (JObj [(''code'', JNum 503)]))
          [0, 0, 0, 0, 0, 0, 0] [] = Inr (rs, S')
        \<and> map result_type rs
            = [Immediate, Immediate, Immediate, Immediate, Immediate, Deferred, Deferred]
        \<and> map (map_option scheduledSendAt \<circ> result_data) rs
            = [Some None, Some None, Some None, Some None, Some None,
               Some (Some (Num 1000)), Some (Some (Num 1000))]))
   \<and> (\<exists>r1 S1 em1 r2 S2 em2.
        trackEvent sha256 ?T1 100 ''api_error'' ''db'' None ?S = Inr (Tracked Deferred r1, S1, em1)
        \<and> trackEvent sha256 ?T1 200 ''api_error'' ''db'' None S1
          = Inr (Tracked Deferred r2, S2, em2)
        \<and> config_refillRate (config r1) = Some 1
        \<and> scheduledSendAt r1 = Some (Num 1100) \<and> scheduledSendAt r2 = Some (Num 1200)
        \<and> js_le (Num 1100) (Num 1200))"
    using a(1,3,4) one run two unfolding v by auto
qed

text \<open>
  Where C7 as stated fails: the claim names no expiry window, and with \<open>expireTime = -1\<close>
  every record has expired at the instant it was written. Each of the seven occurrences
  at instant 0 finds the record of the one before it expired, starts a fresh bucket and is
  admitted: seven times \<open>immediate\<close>, never \<open>deferred\<close>.
\<close>

theorem token_bucket_burst_counterexample:
  "\<forall>sha256. \<exists>rs S'.
     trackEvents sha256
        (default_tracker\<lparr>strategy := TokenBucketStrategy 5 1, expireTime := - 1\<rparr>)
        ''api_error'' ''db'' None [0, 0, 0, 0, 0, 0, 0] []
       = Inr (rs, S')
     \<and> map result_type rs
         = [Immediate, Immediate, Immediate, Immediate, Immediate, Immediate, Immediate]"
  by (simp add: trackEvent_def Let_def strategy_track_def TokenBucketStrategy_track_def
      default_tracker_def storage_get_def storage_set_def storage_size_def)

text \<open>
  C8. \<open>processDeferredEvents\<close> is idempotent on a store nothing else touches. Let a
  first call run at instant \<open>now\<close> and a second at instant \<open>now'\<close> on the store the first
  left, where no record is due at \<open>now'\<close> that was not due at \<open>now\<close> (as when
  \<open>now' = now\<close>). Then the second call returns the empty batch and changes nothing,
  because the first has removed every record of its batch from the store. The store is one
  the coordinator has written: every record is stored under its own key.
\<close>

theorem process_twice:
  assumes "keyed S"
      and "set (findDueDeferred now' S) \<subseteq> set (findDueDeferred now S)"
  shows "fst (processDeferredEvents now' (fst (snd (processDeferredEvents now S)))) = []
       \<and> (\<forall>r \<in> set (fst (processDeferredEvents now S)).
            storage_get (key r) (fst (snd (processDeferredEvents now S))) = None)
       \<and> fst (snd (processDeferredEvents now' (fst (snd (processDeferredEvents now S)))))
           = fst (snd (processDeferredEvents now S))"
proof -
  let ?S1 = "fst (snd (processDeferredEvents now S))"
  have e: "findDueDeferred now' ?S1 = []" by (rule drained_none_due [OF assms])
  have a: "fst (processDeferredEvents now' ?S1) = []"
    using e by (simp add: processDeferredEvents_def Let_def)
  have c: "fst (snd (processDeferredEvents now' ?S1)) = ?S1"
    using e by (simp add: processDeferredEvents_def Let_def)
  have b: "\<forall>r \<in> set (fst (processDeferredEvents now S)). storage_get (key r) ?S1 = None"
    by (auto simp add: processDeferredEvents_def Let_def fold_delete_filter storage_get_def
        map_of_eq_None_iff)
  show ?thesis using a b c by blast
qed


text \<open>
  An instance: a store of two records, one deferred and due after an hour, one not
  deferred, drained twice at the end of that hour. The first batch is the due record.
\<close>

theorem process_twice_witness:
  "keyed [(''k1'', counter_record ''k1''),
          (''k2'', (counter_record ''k2'')\<lparr>deferred := False, scheduledSendAt := None\<rparr>)]
   \<and> fst (processDeferredEvents 3600000
            [(''k1'', counter_record ''k1''),
             (''k2'', (counter_record ''k2'')\<lparr>deferred := False, scheduledSendAt := None\<rparr>)])
       = [counter_record ''k1'']
   \<and> fst (processDeferredEvents 3600000
            (fst (snd (processDeferredEvents 3600000
               [(''k1'', counter_record ''k1''),
                (''k2'', (counter_record ''k2'')\<lparr>deferred := False, scheduledSendAt := None\<rparr>)]))))
       = []"
proof -
  let ?S = "[(''k1'', counter_record ''k1''),
             (''k2'', (counter_record ''k2'')\<lparr>deferred := False, scheduledSendAt := None\<rparr>)]"
  have a: "keyed ?S" by (simp add: keyed_def counter_record_def)
  have b: "set (findDueDeferred 3600000 ?S) \<subseteq> set (findDueDeferred 3600000 ?S)" by simp
  have c: "fst (processDeferredEvents 3600000 ?S) = [counter_record ''k1'']"
    by (simp add: processDeferredEvents_def Let_def findDueDeferred_def counter_record_def)
  show ?thesis using a c process_twice [OF a b] by blast
qed

text \<open>
  C9. \<open>updateConfig\<close> on a key the store does not hold returns false, leaves the store
  as it is and emits nothing. On a key the store holds it returns true and emits
  \<open>config_updated\<close> with the record it stores under that key, which is the old record
  with only \<open>config\<close> replaced: each property of the config takes the value of the patch
  where the patch has one and keeps its value where it has none. No other key and not the
  size of the store change.
\<close>

theorem updateConfig_spec:
  "(storage_get (generateCompositeKey sha256 cat idt) S = None
      \<longrightarrow> updateConfig sha256 cat idt newConfig S = (False, S, []))
   \<and> (storage_get (generateCompositeKey sha256 cat idt) S = Some r
      \<longrightarrow> (\<exists>r' S'. updateConfig sha256 cat idt newConfig S = (True, S', [Emit_config_updated r'])
             \<and> storage_get (generateCompositeKey sha256 cat idt) S' = Some r'
             \<and> (\<forall>k. k \<noteq> generateCompositeKey sha256 cat idt \<longrightarrow> storage_get k S' = storage_get k S)
             \<and> storage_size S' = storage_size S
             \<and> r' = r\<lparr> config := config r' \<rparr>
             \<and> config_limit (config r')
                 = (case config_limit newConfig of
                      None \<Rightarrow> config_limit (config r) | Some v \<Rightarrow> Some v)
             \<and> config_deferInterval (config r')
                 = (case config_deferInterval newConfig of
                      None \<Rightarrow> config_deferInterval (config r) | Some v \<Rightarrow> Some v)
             \<and> config_bucketSize (config r')
                 = (case config_bucketSize newConfig of
                      None \<Rightarrow> config_bucketSize (config r) | Some v \<Rightarrow> Some v)
             \<and> config_refillRate (config r')
                 = (case config_refillRate newConfig of
                      None \<Rightarrow> config_refillRate (config r) | Some v \<Rightarrow> Some v)))"
proof (intro conjI impI)
  assume "storage_get (generateCompositeKey sha256 cat idt) S = None"
  then show "updateConfig sha256 cat idt newConfig S = (False, S, [])"
    by (simp add: updateConfig_def)
next
  let ?k = "generateCompositeKey sha256 cat idt"
  assume g: "storage_get ?k S = Some r"
  then have "?k \<in> fst ` set S"
    by (auto simp add: storage_get_def dest: map_of_SomeD intro: rev_image_eqI)
  then have len: "storage_size (storage_set ?k (r\<lparr> config := spread (config r) newConfig \<rparr>) S)
      = storage_size S"
    by (simp add: storage_size_set)
  show "\<exists>r' S'. updateConfig sha256 cat idt newConfig S = (True, S', [Emit_config_updated r'])
             \<and> storage_get ?k S' = Some r'
             \<and> (\<forall>k. k \<noteq> ?k \<longrightarrow> storage_get k S' = storage_get k S)
             \<and> storage_size S' = storage_size S
             \<and> r' = r\<lparr> config := config r' \<rparr>
             \<and> config_limit (config r')
                 = (case config_limit newConfig of
                      None \<Rightarrow> config_limit (config r) | Some v \<Rightarrow> Some v)
             \<and> config_deferInterval (config r')
                 = (case config_deferInterval newConfig of
                      None \<Rightarrow> config_deferInterval (config r) | Some v \<Rightarrow> Some v)
             \<and> config_bucketSize (config r')
                 = (case config_bucketSize newConfig of
                      None \<Rightarrow> config_bucketSize (config r) | Some v \<Rightarrow> Some v)
             \<and> config_refillRate (config r')
                 = (case config_refillRate newConfig of
                      None \<Rightarrow> config_refillRate (config r) | Some v \<Rightarrow> Some v)"
    using g len by (simp add: updateConfig_def Let_def spread_def)
qed


text \<open>
  Instances: a patch that sets the limit to 10, on the empty store and on a store that
  holds the record of the key, whose config has limit 5 and a defer interval of one hour.
\<close>

theorem updateConfig_spec_witness:
  "\<forall>sha256.
     storage_get (generateCompositeKey sha256 ''api_error'' ''db'') [] = None
     \<and> updateConfig sha256 ''api_error'' ''db''
          \<lparr> config_limit = Some 10, config_deferInterval = None,
            config_bucketSize = None, config_refillRate = None \<rparr> []
         = (False, [], [])
     \<and> storage_get (generateCompositeKey sha256 ''api_error'' ''db'')
          [(generateCompositeKey sha256 ''api_error'' ''db'',
            counter_record (generateCompositeKey sha256 ''api_error'' ''db''))]
         = Some (counter_record (generateCompositeKey sha256 ''api_error'' ''db''))
     \<and> (\<exists>r' S'.
           updateConfig sha256 ''api_error'' ''db''
             \<lparr> config_limit = Some 10, config_deferInterval = None,
               config_bucketSize = None, config_refillRate = None \<rparr>
             [(generateCompositeKey sha256 ''api_error'' ''db'',
               counter_record (generateCompositeKey sha256 ''api_error'' ''db''))]
            = (True, S', [Emit_config_updated r'])
         \<and> storage_get (generateCompositeKey sha256 ''api_error'' ''db'') S' = Some r'
         \<and> config_limit (config r') = Some 10
         \<and> config_deferInterval (config r') = Some 3600000
         \<and> count r' = 9 \<and> deferred r')"
proof
  fix sha256 :: "string \<Rightarrow> string"
  let ?k = "generateCompositeKey sha256 ''api_error'' ''db''"
  let ?S = "[(?k, counter_record ?k)]"
  let ?p = "\<lparr> config_limit = Some 10, config_deferInterval = None,
              config_bucketSize = None, config_refillRate = None \<rparr>"
  have a: "storage_get ?k [] = None" by (simp add: storage_get_def)
  have b: "storage_get ?k ?S = Some (counter_record ?k)" by (simp add: storage_get_def)
  have one: "updateConfig sha256 ''api_error'' ''db'' ?p [] = (False, [], [])"
    using updateConfig_spec
            [where cat = "''api_error''" and idt = "''db''" and S = "[]" and newConfig = ?p]
      a by blast
  obtain r' S' where
    two: "updateConfig sha256 ''api_error'' ''db'' ?p ?S = (True, S', [Emit_config_updated r'])"
      "storage_get ?k S' = Some r'"
      "r' = (counter_record ?k)\<lparr> config := config r' \<rparr>"
      "config_limit (config r')
         = (case config_limit ?p of
              None \<Rightarrow> config_limit (config (counter_record ?k)) | Some v \<Rightarrow> Some v)"
      "config_deferInterval (config r')
         = (case config_deferInterval ?p of
              None \<Rightarrow> config_deferInterval (config (counter_record ?k)) | Some v \<Rightarrow> Some v)"
    using updateConfig_spec
            [where cat = "''api_error''" and idt = "''db''" and S = ?S and newConfig = ?p
               and r = "counter_record ?k"]
      b by blast
  have f: "count r' = 9" "deferred r'"
    by (subst two(3), simp add: counter_record_def)+
  show "storage_get ?k [] = None
     \<and> updateConfig sha256 ''api_error'' ''db'' ?p [] = (False, [], [])
     \<and> storage_get ?k ?S = Some (counter_record ?k)
     \<and> (\<exists>r' S'.
           updateConfig sha256 ''api_error'' ''db'' ?p ?S = (True, S', [Emit_config_updated r'])
         \<and> storage_get ?k S' = Some r'
         \<and> config_limit (config r') = Some 10
         \<and> config_deferInterval (config r') = Some 3600000
         \<and> count r' = 9 \<and> deferred r')"
    using a b one two f by (simp add: counter_record_def)
qed

text \<open>
  C10. The fingerprint is \<open>JSON.stringify(details, sortedTopLevelKeys)\<close> hashed, and the
  array of top-level keys filters the keys of nested objects too. So the payloads
  \<open>{a: {x: 1}}\<close> and \<open>{a: {x: 2}}\<close>, which differ, have the same fingerprint, whatever
  the hash function; and a default tracker that has tracked the first on an empty store
  takes the second as one more occurrence of it: the count becomes 2 and the stored details
  stay those of the first.
\<close>

theorem fingerprint_collision:
  "JObj [(''a'', JObj [(''x'', JNum 1)])] \<noteq> JObj [(''a'', JObj [(''x'', JNum 2)])]
   \<and> generateDetailsHash sha256 (Some (JObj [(''a'', JObj [(''x'', JNum 1)])]))
       = generateDetailsHash sha256 (Some (JObj [(''a'', JObj [(''x'', JNum 2)])]))
   \<and> (\<exists>r1 S1 em1 r2 S2 em2.
         trackEvent sha256 default_tracker now cat idt
             (Some (JObj [(''a'', JObj [(''x'', JNum 1)])])) []
           = Inr (Tracked Immediate r1, S1, em1)
       \<and> trackEvent sha256 default_tracker now cat idt
             (Some (JObj [(''a'', JObj [(''x'', JNum 2)])])) S1
           = Inr (Tracked Immediate r2, S2, em2)
       \<and> count r1 = 1 \<and> count r2 = 2
       \<and> details r2 = Some (JObj [(''a'', JObj [(''x'', JNum 1)])]))"
proof -
  have h: "generateDetailsHash sha256 (Some (JObj [(''a'', JObj [(''x'', JNum 1)])]))
       = generateDetailsHash sha256 (Some (JObj [(''a'', JObj [(''x'', JNum 2)])]))"
    by (rule fingerprint_blind_to_nested) simp_all
  show ?thesis
    using h
    by (simp add: trackEvent_def Let_def strategy_track_def SimpleCounterStrategy_track_def
        default_tracker_def DEFAULT_LIMIT_def DEFAULT_EXPIRE_TIME_MS_def js_gt_def
        storage_get_def storage_set_def storage_size_def)
qed

end
